theory Spec2Isabelle
  imports Complex_Main "HOL-Library.Word"
begin

section \<open>JavaScript values and objects\<close>

text \<open>
  The module \<^verbatim>\<open>src/utils/db.js\<close> handles plain JavaScript objects whose fields are
  read with \<^verbatim>\<open>||\<close> and \<^verbatim>\<open>!\<close>, so the values are modelled with their dynamic type.
  Numbers are the integers (every number the module computes is one, and so is every key
  the key generator hands out); \<^verbatim>\<open>NaN\<close>, fractions, nested objects and arrays are outside
  the model. A string value is what it is in JavaScript, a list of 16-bit code units; \<open>js\<close>
  writes one from its ASCII spelling. Property names are written as Isabelle strings.
\<close>

type_synonym code_unit = "16 word"

type_synonym jsstring = "code_unit list"

definition js :: "string \<Rightarrow> jsstring" where
  "js s = map (\<lambda>c. of_nat (of_char c)) s"

datatype jsval = JUndefined | JNull | JBool bool | JNum int | JStr jsstring

text \<open>An object is a finite map from property names to values; an absent property is \<open>None\<close>.\<close>

type_synonym jsobj = "string \<rightharpoonup> jsval"

text \<open>Reading a property, \<^verbatim>\<open>obj.f\<close>: an absent property reads as \<^verbatim>\<open>undefined\<close>.\<close>

definition field :: "jsobj \<Rightarrow> string \<Rightarrow> jsval" where
  "field obj f = (case obj f of None \<Rightarrow> JUndefined | Some v \<Rightarrow> v)"

text \<open>\<^verbatim>\<open>ToBoolean\<close>: \<^verbatim>\<open>undefined\<close>, \<^verbatim>\<open>null\<close>, \<^verbatim>\<open>false\<close>, \<^verbatim>\<open>0\<close> and \<^verbatim>\<open>''\<close> are falsy.\<close>

fun truthy :: "jsval \<Rightarrow> bool" where
  "truthy JUndefined = False"
| "truthy JNull = False"
| "truthy (JBool b) = b"
| "truthy (JNum n) = (n \<noteq> 0)"
| "truthy (JStr s) = (s \<noteq> [])"

text \<open>\<^verbatim>\<open>a || b\<close>\<close>

definition js_or :: "jsval \<Rightarrow> jsval \<Rightarrow> jsval" where
  "js_or a b = (if truthy a then a else b)"

datatype error =
    NotInitialized    \<comment> \<open>\<^verbatim>\<open>new Error('Database not initialized')\<close>\<close>
  | TypeError         \<comment> \<open>calling \<^verbatim>\<open>.trim()\<close> on a value that is not a string\<close>
  | NotFoundError     \<comment> \<open>\<^verbatim>\<open>db.transaction([STORE_NAME], ...)\<close> when the store does not exist\<close>
  | DataError         \<comment> \<open>a value that is not a valid key where the engine needs one\<close>
  | ConstraintError   \<comment> \<open>\<^verbatim>\<open>add\<close> under a key that is taken, or an exhausted key generator\<close>
  | VersionError      \<comment> \<open>\<^verbatim>\<open>open\<close> with a version below the stored one\<close>
  | AbortError        \<comment> \<open>the upgrade transaction was aborted\<close>

section \<open>Word count and reading time (lines 31-34 and 65-72)\<close>

text \<open>
  White space as \<^verbatim>\<open>String.prototype.trim\<close> and the regular expression class \<^verbatim>\<open>\s\<close> see
  it (both use the same set, the language's white space and line terminators): tab, line
  feed, vertical tab, form feed, carriage return, space, no-break space, U+1680, U+2000 to
  U+200A, the line and paragraph separators U+2028 and U+2029, U+202F, U+205F, U+3000 and
  the byte order mark U+FEFF. Each is a single code unit.
\<close>

definition is_space :: "code_unit \<Rightarrow> bool" where
  "is_space u \<longleftrightarrow>
     u = 0x0009 \<or> u = 0x000A \<or> u = 0x000B \<or> u = 0x000C \<or> u = 0x000D \<or>
     u = 0x0020 \<or> u = 0x00A0 \<or> u = 0x1680 \<or> (0x2000 \<le> u \<and> u \<le> 0x200A) \<or>
     u = 0x2028 \<or> u = 0x2029 \<or> u = 0x202F \<or> u = 0x205F \<or> u = 0x3000 \<or> u = 0xFEFF"

text \<open>\<^verbatim>\<open>text.trim()\<close>\<close>

definition trim :: "jsstring \<Rightarrow> jsstring" where
  "trim s = rev (dropWhile is_space (rev (dropWhile is_space s)))"

text \<open>
  \<^verbatim>\<open>s.split(/\s+/)\<close>: the piece before the next run of white space, then the split of what
  follows the run; the last piece is whatever remains, so the empty string splits into one
  empty piece and a string that starts or ends with white space has an empty first or last
  piece.
\<close>

function split_ws :: "jsstring \<Rightarrow> jsstring list" where
  "split_ws s =
     (let piece = takeWhile (\<lambda>c. \<not> is_space c) s;
          rest = dropWhile (\<lambda>c. \<not> is_space c) s
      in if rest = [] then [piece] else piece # split_ws (dropWhile is_space rest))"
  by pat_completeness auto
termination
proof (relation "measure length")
  show "wf (measure length)" by simp
next
  fix s piece rest :: jsstring
  assume r: "rest = dropWhile (\<lambda>c. \<not> is_space c) s" and ne: "rest \<noteq> []"
  from ne obtain c cs where rest: "rest = c # cs" by (cases rest) auto
  have "length (dropWhile is_space rest) \<le> length cs"
  proof -
    have "dropWhile (\<lambda>c. \<not> is_space c) s = c # cs" using r rest by simp
    then have "is_space c" unfolding dropWhile_eq_Cons_conv by blast
    then show ?thesis by (simp add: rest length_dropWhile_le)
  qed
  moreover have "length rest \<le> length s" by (simp add: r length_dropWhile_le)
  ultimately show "(dropWhile is_space rest, s) \<in> measure length" by (simp add: rest)
qed

declare split_ws.simps [simp del]

text \<open>\<^verbatim>\<open>text.trim().split(/\s+/).filter(Boolean)\<close>: a string is truthy when it is not empty.\<close>

definition words_of :: "jsstring \<Rightarrow> jsstring list" where
  "words_of text = filter (\<lambda>w. w \<noteq> []) (split_ws (trim text))"

text \<open>\<^verbatim>\<open>Math.ceil(words.length / 200)\<close>: a division of reals, rounded up.\<close>

definition reading_time :: "nat \<Rightarrow> int" where
  "reading_time n = \<lceil>real n / 200\<rceil>"

text \<open>
  \<^verbatim>\<open>const text = data.content || ''; const words = text.trim()...\<close>: when the content is
  truthy and not a string, \<^verbatim>\<open>text.trim\<close> is not a function and the call throws.
\<close>

definition content_words :: "jsobj \<Rightarrow> error + jsstring list" where
  "content_words data =
     (case js_or (field data ''content'') (JStr []) of
        JStr text \<Rightarrow> Inr (words_of text)
      | _ \<Rightarrow> Inl TypeError)"

section \<open>The storage engine\<close>

text \<open>
  The module is written against the browser's IndexedDB interface. What follows is the part
  of the engine's behaviour the module relies on: one database holding at most the one store
  \<^verbatim>\<open>clippedPages\<close>, whose records are kept in ascending key order. Failures of the
  environment (quota, a closed connection, a blocked upgrade) are not modelled: a request
  fails only for the reasons the engine's algorithms give.
\<close>

datatype key = KNum int | KStr jsstring

text \<open>A number or a string is a valid key; \<^verbatim>\<open>undefined\<close>, \<^verbatim>\<open>null\<close> and booleans are not.\<close>

fun to_key :: "jsval \<Rightarrow> key option" where
  "to_key (JNum n) = Some (KNum n)"
| "to_key (JStr s) = Some (KStr s)"
| "to_key _ = None"

fun key_val :: "key \<Rightarrow> jsval" where
  "key_val (KNum n) = JNum n"
| "key_val (KStr s) = JStr s"

text \<open>The engine's order on keys: numbers before strings, strings by their code units.\<close>

fun str_less :: "jsstring \<Rightarrow> jsstring \<Rightarrow> bool" where
  "str_less [] [] = False"
| "str_less [] (b # bs) = True"
| "str_less (a # as) [] = False"
| "str_less (a # as) (b # bs) = (a < b \<or> (a = b \<and> str_less as bs))"

fun key_less :: "key \<Rightarrow> key \<Rightarrow> bool" where
  "key_less (KNum a) (KNum b) = (a < b)"
| "key_less (KNum a) (KStr t) = True"
| "key_less (KStr s) (KNum b) = False"
| "key_less (KStr s) (KStr t) = str_less s t"

text \<open>
  Modelled from the spec: the call that creates the store is not in the source, so the store's
  configuration is taken from the spec's "one record store, auto-incrementing numeric key"
  and from the view's use of \<^verbatim>\<open>page.id\<close>: the key path is \<^verbatim>\<open>id\<close> and the store has a key
  generator, whose current number is \<open>keygen\<close>.
\<close>

record objstore =
  records :: "(key \<times> jsobj) list"
  keygen :: int

record idb =
  version :: nat
  store :: "objstore option"

fun insert_record :: "key \<Rightarrow> jsobj \<Rightarrow> (key \<times> jsobj) list \<Rightarrow> (key \<times> jsobj) list" where
  "insert_record k v [] = [(k, v)]"
| "insert_record k v ((k', v') # rs) =
     (if key_less k k' then (k, v) # (k', v') # rs else (k', v') # insert_record k v rs)"

text \<open>Storing under a key that must be new (\<^verbatim>\<open>add\<close> never overwrites).\<close>

definition put_new :: "key \<Rightarrow> jsobj \<Rightarrow> objstore \<Rightarrow> error + key \<times> objstore" where
  "put_new k v s =
     (if k \<in> set (map fst (records s)) then Inl ConstraintError
      else Inr (k, s\<lparr>records := insert_record k v (records s)\<rparr>))"

text \<open>
  \<^verbatim>\<open>store.add(value)\<close> on a store with key path \<^verbatim>\<open>id\<close> and a key generator. When the
  value has no property \<^verbatim>\<open>id\<close> the generator's current number becomes the key, is written
  into the value and the generator moves on (it gives up beyond \<open>2^53\<close>). A property
  \<^verbatim>\<open>id\<close> that is present must hold a valid key: a number or a string is used as it is (a
  number not below the generator's pushes the generator past it), and anything else,
  \<^verbatim>\<open>undefined\<close> included, is refused.
\<close>

definition store_add :: "jsobj \<Rightarrow> objstore \<Rightarrow> error + key \<times> objstore" where
  "store_add v s =
     (case v ''id'' of
        None \<Rightarrow>
          if keygen s > 2 ^ 53 then Inl ConstraintError
          else put_new (KNum (keygen s)) (v(''id'' \<mapsto> JNum (keygen s)))
                 (s\<lparr>keygen := keygen s + 1\<rparr>)
      | Some (JNum n) \<Rightarrow>
          put_new (KNum n) v
            (s\<lparr>keygen := (if min n (2 ^ 53) \<ge> keygen s then min n (2 ^ 53) + 1 else keygen s)\<rparr>)
      | Some (JStr t) \<Rightarrow> put_new (KStr t) v s
      | Some _ \<Rightarrow> Inl DataError)"

text \<open>\<^verbatim>\<open>store.getAll()\<close>, \<^verbatim>\<open>store.delete(key)\<close>, \<^verbatim>\<open>store.clear()\<close>\<close>

definition store_getAll :: "objstore \<Rightarrow> jsobj list" where
  "store_getAll s = map snd (records s)"

definition store_delete :: "key \<Rightarrow> objstore \<Rightarrow> objstore" where
  "store_delete k s = s\<lparr>records := filter (\<lambda>(k', v). k' \<noteq> k) (records s)\<rparr>"

definition store_clear :: "objstore \<Rightarrow> objstore" where
  "store_clear s = s\<lparr>records := []\<rparr>"

text \<open>
  \<^verbatim>\<open>cursor.update(data)\<close> at the record with key \<open>k\<close>: the value is replaced in place; with
  a key path the new value must still carry the cursor's key.
\<close>

definition cursor_update :: "key \<Rightarrow> jsobj \<Rightarrow> error + key \<times> jsobj" where
  "cursor_update k data =
     (if to_key (field data ''id'') = Some k then Inr (k, data) else Inl DataError)"

section \<open>The module's state\<close>

text \<open>
  The database on disk and the module's variable \<^verbatim>\<open>db\<close>. \<open>NoDatabase\<close>: nothing on disk
  (a fresh install); \<open>Closed d\<close>: the database \<open>d\<close> is on disk and \<^verbatim>\<open>db\<close> is \<^verbatim>\<open>null\<close>;
  \<open>Opened st\<close>: \<^verbatim>\<open>db\<close> holds a connection. Only \<open>initDB\<close> assigns \<^verbatim>\<open>db\<close>, after opening
  at \<open>DB_VERSION\<close>, so an open database is at that version and only its store \<open>st\<close>
  (absent or present) is recorded.
\<close>

datatype world = NoDatabase | Closed idb | Opened "objstore option"

definition DB_VERSION :: nat where
  "DB_VERSION = 2"

text \<open>The variable \<^verbatim>\<open>db\<close>: \<open>None\<close> for \<^verbatim>\<open>null\<close>, else the connection (showing the store).\<close>

fun db :: "world \<Rightarrow> objstore option option" where
  "db NoDatabase = None"
| "db (Closed d) = None"
| "db (Opened st) = Some st"

section \<open>initDB (lines 14-57)\<close>

text \<open>
  The test of line 30, \<^verbatim>\<open>!data.wordCount || !data.readingTime\<close>, and the body of the cursor
  callback for the record under the cursor (lines 29-36): when the test holds, both fields
  are computed from the content and the record is written back with \<^verbatim>\<open>cursor.update\<close>;
  otherwise the record is not touched.
\<close>

definition needs_backfill :: "jsobj \<Rightarrow> bool" where
  "needs_backfill data \<longleftrightarrow>
     \<not> truthy (field data ''wordCount'') \<or> \<not> truthy (field data ''readingTime'')"

definition backfill_record :: "key \<times> jsobj \<Rightarrow> error + key \<times> jsobj" where
  "backfill_record kd =
     (let k = fst kd; data = snd kd in
      if needs_backfill data then
        (case content_words data of
           Inl e \<Rightarrow> Inl e
         | Inr words \<Rightarrow>
             cursor_update k
               (data(''wordCount'' \<mapsto> JNum (int (length words)),
                     ''readingTime'' \<mapsto> JNum (reading_time (length words)))))
      else Inr (k, data))"

text \<open>
  The cursor opened at line 26 visits the records in key order, \<^verbatim>\<open>cursor.continue()\<close>
  moving to the next one; an exception in the callback ends the scan.
\<close>

fun backfill_scan :: "(key \<times> jsobj) list \<Rightarrow> error + (key \<times> jsobj) list" where
  "backfill_scan [] = Inr []"
| "backfill_scan (kd # rest) =
     (case backfill_record kd of
        Inl e \<Rightarrow> Inl e
      | Inr kd' \<Rightarrow>
          (case backfill_scan rest of
             Inl e \<Rightarrow> Inl e
           | Inr rest' \<Rightarrow> Inr (kd' # rest')))"

text \<open>
  The \<^verbatim>\<open>onupgradeneeded\<close> handler (lines 18-41): when the store exists its records are
  scanned; when it does not, the handler does nothing.
\<close>

definition onupgradeneeded :: "objstore option \<Rightarrow> error + objstore option" where
  "onupgradeneeded st =
     (case st of
        Some s \<Rightarrow>
          (case backfill_scan (records s) of
             Inl e \<Rightarrow> Inl e
           | Inr rs \<Rightarrow> Inr (Some (s\<lparr>records := rs\<rparr>)))
      | None \<Rightarrow> Inr None)"

text \<open>
  \<^verbatim>\<open>indexedDB.open(DB_NAME, DB_VERSION)\<close>: an absent database is created empty at version 0;
  a stored version above the requested one is an error; a stored version below it runs the
  upgrade handler inside a transaction, and a failure there aborts the transaction, which
  leaves the disk as it was and fails the request. On success \<^verbatim>\<open>db\<close> is assigned.
\<close>

definition initDB :: "world \<Rightarrow> (error + unit) \<times> world" where
  "initDB w =
     (case w of
        Opened st \<Rightarrow> (Inr (), Opened st)
      | _ \<Rightarrow>
          (let d = (case w of Closed d \<Rightarrow> d | _ \<Rightarrow> \<lparr>version = 0, store = None\<rparr>) in
           if version d > DB_VERSION then (Inl VersionError, w)
           else if version d = DB_VERSION then (Inr (), Opened (store d))
           else
             (case onupgradeneeded (store d) of
                Inl e \<Rightarrow> (Inl AbortError, w)
              | Inr st' \<Rightarrow> (Inr (), Opened st'))))"

section \<open>addClippedPage (lines 60-92)\<close>

text \<open>
  The object built at lines 65-73: the fields of \<^verbatim>\<open>pageData\<close>, then \<^verbatim>\<open>timestamp\<close>,
  \<^verbatim>\<open>wordCount\<close> and \<^verbatim>\<open>readingTime\<close>, which replace fields of the same name. \<open>now\<close> is
  \<^verbatim>\<open>new Date().toISOString()\<close>.
\<close>

definition new_data :: "jsstring \<Rightarrow> jsobj \<Rightarrow> error + jsobj" where
  "new_data now pageData =
     (case content_words pageData of
        Inl e \<Rightarrow> Inl e
      | Inr words \<Rightarrow>
          Inr (pageData
                (''timestamp'' \<mapsto> js_or (field pageData ''timestamp'') (JStr now),
                 ''wordCount'' \<mapsto> JNum (int (length words)),
                 ''readingTime'' \<mapsto> JNum (reading_time (length words)))))"

definition addClippedPage :: "jsstring \<Rightarrow> jsobj \<Rightarrow> world \<Rightarrow> (error + key) \<times> world" where
  "addClippedPage now pageData w =
     (case db w of
        None \<Rightarrow> (Inl NotInitialized, w)
      | Some conn \<Rightarrow>
          (case new_data now pageData of
             Inl e \<Rightarrow> (Inl e, w)
           | Inr data \<Rightarrow>
               (case conn of
                  None \<Rightarrow> (Inl NotFoundError, w)
                | Some s \<Rightarrow>
                    (case store_add data s of
                       Inl e \<Rightarrow> (Inl e, w)
                     | Inr (k, s') \<Rightarrow> (Inr k, Opened (Some s'))))))"

section \<open>getAllClippedPages, deleteClippedPage, clearAllClippedPages (lines 95-167)\<close>

definition getAllClippedPages :: "world \<Rightarrow> error + jsobj list" where
  "getAllClippedPages w =
     (case db w of
        None \<Rightarrow> Inl NotInitialized
      | Some conn \<Rightarrow>
          (case conn of
             None \<Rightarrow> Inl NotFoundError
           | Some s \<Rightarrow> Inr (store_getAll s)))"

definition deleteClippedPage :: "jsval \<Rightarrow> world \<Rightarrow> (error + unit) \<times> world" where
  "deleteClippedPage idv w =
     (case db w of
        None \<Rightarrow> (Inl NotInitialized, w)
      | Some conn \<Rightarrow>
          (case conn of
             None \<Rightarrow> (Inl NotFoundError, w)
           | Some s \<Rightarrow>
               (case to_key idv of
                  None \<Rightarrow> (Inl DataError, w)
                | Some k \<Rightarrow> (Inr (), Opened (Some (store_delete k s))))))"

definition clearAllClippedPages :: "world \<Rightarrow> (error + unit) \<times> world" where
  "clearAllClippedPages w =
     (case db w of
        None \<Rightarrow> (Inl NotInitialized, w)
      | Some conn \<Rightarrow>
          (case conn of
             None \<Rightarrow> (Inl NotFoundError, w)
           | Some s \<Rightarrow> (Inr (), Opened (Some (store_clear s)))))"

section \<open>Notions used to state the properties\<close>

text \<open>
  What the engine keeps true of a store with key path \<^verbatim>\<open>id\<close> and a key generator: keys
  are unique, every value carries its key in \<^verbatim>\<open>id\<close>, and while the generator is not
  exhausted its current number is above every numeric key.
\<close>

fun key_below :: "int \<Rightarrow> key \<Rightarrow> bool" where
  "key_below g (KNum n) = (n < g)"
| "key_below g (KStr t) = True"

definition store_ok :: "objstore \<Rightarrow> bool" where
  "store_ok s \<longleftrightarrow>
     distinct (map fst (records s)) \<and>
     (\<forall>kd \<in> set (records s). to_key (field (snd kd) ''id'') = Some (fst kd)) \<and>
     (keygen s \<le> 2 ^ 53 \<longrightarrow> (\<forall>k \<in> set (map fst (records s)). key_below (keygen s) k))"

text \<open>The record \<open>p\<close> has the title, url and content of \<open>r\<close>.\<close>

definition same_page :: "jsobj \<Rightarrow> jsobj \<Rightarrow> bool" where
  "same_page r p \<longleftrightarrow>
     p ''title'' = r ''title'' \<and> p ''url'' = r ''url'' \<and> p ''content'' = r ''content''"

text \<open>
  The spec's data model, in its own words: the word count is the "number of
  whitespace-delimited non-empty tokens" of the content. \<open>spec_tokens\<close> reads the content
  once from left to right, \<open>cur\<close> holding the token being read (last character first).
\<close>

fun tokens_from :: "jsstring \<Rightarrow> jsstring \<Rightarrow> jsstring list" where
  "tokens_from cur [] = (if cur = [] then [] else [rev cur])"
| "tokens_from cur (c # cs) =
     (if is_space c then (if cur = [] then tokens_from [] cs else rev cur # tokens_from [] cs)
      else tokens_from (c # cur) cs)"

definition spec_tokens :: "jsstring \<Rightarrow> jsstring list" where
  "spec_tokens c = tokens_from [] c"

text \<open>The spec's \<open>ceil(wordCount / 200)\<close> in integer arithmetic.\<close>

definition spec_reading_time :: "nat \<Rightarrow> int" where
  "spec_reading_time n = (int n + 199) div 200"

section \<open>Operations before initialisation\<close>

text \<open>
  C4. While \<^verbatim>\<open>db\<close> is unset (no successful \<open>initDB\<close> yet), each of the four operations
  is rejected with the "Database not initialized" error and the state stays as it was
  (\<open>getAllClippedPages\<close> returns no state: it cannot change it).
\<close>

theorem not_initialized_rejects:
  assumes "db w = None"
  shows "addClippedPage now pageData w = (Inl NotInitialized, w) \<and>
         getAllClippedPages w = Inl NotInitialized \<and>
         deleteClippedPage idv w = (Inl NotInitialized, w) \<and>
         clearAllClippedPages w = (Inl NotInitialized, w)"
  using assms
  by (simp add: addClippedPage_def getAllClippedPages_def deleteClippedPage_def
      clearAllClippedPages_def)

theorem not_initialized_rejects_witness:
  "db (Closed \<lparr>version = 2, store = Some \<lparr>records = [], keygen = 1\<rparr>\<rparr>) = None \<and>
   addClippedPage (js ''2024-05-01T10:00:00.000Z'') [''title'' \<mapsto> JStr (js ''A'')]
     (Closed \<lparr>version = 2, store = Some \<lparr>records = [], keygen = 1\<rparr>\<rparr>)
     = (Inl NotInitialized, Closed \<lparr>version = 2, store = Some \<lparr>records = [], keygen = 1\<rparr>\<rparr>) \<and>
   getAllClippedPages (Closed \<lparr>version = 2, store = Some \<lparr>records = [], keygen = 1\<rparr>\<rparr>)
     = Inl NotInitialized \<and>
   deleteClippedPage (JNum 1) (Closed \<lparr>version = 2, store = Some \<lparr>records = [], keygen = 1\<rparr>\<rparr>)
     = (Inl NotInitialized, Closed \<lparr>version = 2, store = Some \<lparr>records = [], keygen = 1\<rparr>\<rparr>) \<and>
   clearAllClippedPages (Closed \<lparr>version = 2, store = Some \<lparr>records = [], keygen = 1\<rparr>\<rparr>)
     = (Inl NotInitialized, Closed \<lparr>version = 2, store = Some \<lparr>records = [], keygen = 1\<rparr>\<rparr>)"
  using not_initialized_rejects
    [of "Closed \<lparr>version = 2, store = Some \<lparr>records = [], keygen = 1\<rparr>\<rparr>"
        "js ''2024-05-01T10:00:00.000Z''" "[''title'' \<mapsto> JStr (js ''A'')]" "JNum 1"]
  by simp

section \<open>A fresh install\<close>

text \<open>
  C1. On a fresh install \<open>initDB\<close> succeeds, but its upgrade handler creates no store (the
  branch of line 22 runs only when the store is already there), so the connection has no
  store \<^verbatim>\<open>clippedPages\<close> and the transaction of \<open>addClippedPage\<close> is refused. The database
  stays at the current version without the store, so a later \<open>initDB\<close> (after a reload)
  runs no upgrade and changes nothing.
\<close>

theorem fresh_install_addPage_fails:
  "initDB NoDatabase = (Inr (), Opened None) \<and>
   addClippedPage (js ''2024-05-01T10:00:00.000Z'')
     [''title'' \<mapsto> JStr (js ''A''), ''url'' \<mapsto> JStr (js ''http://x''), ''content'' \<mapsto> JStr (js ''one two three'')]
     (snd (initDB NoDatabase))
   = (Inl NotFoundError, Opened None) \<and>
   initDB (Closed \<lparr>version = DB_VERSION, store = None\<rparr>) = (Inr (), Opened None)"
  by (simp add: initDB_def DB_VERSION_def onupgradeneeded_def addClippedPage_def new_data_def
      content_words_def js_or_def field_def)

text \<open>
  C5, on a fresh install. After the successful \<open>initDB\<close> no record has the id 1, yet
  \<open>deleteClippedPage\<close> is refused, for the reason given under C1.
\<close>

theorem fresh_install_deletePage_fails:
  "initDB NoDatabase = (Inr (), Opened None) \<and>
   getAllClippedPages (snd (initDB NoDatabase)) = Inl NotFoundError \<and>
   deleteClippedPage (JNum 1) (snd (initDB NoDatabase)) = (Inl NotFoundError, Opened None)"
  by (simp add: initDB_def DB_VERSION_def onupgradeneeded_def deleteClippedPage_def
      getAllClippedPages_def)

section \<open>Clearing the store\<close>

text \<open>
  C6. In every state, once \<open>clearAllClippedPages\<close> has succeeded, \<open>getAllClippedPages\<close>
  returns the empty list.
\<close>

theorem clearAll_then_getAll_empty:
  assumes "clearAllClippedPages w = (Inr (), w')"
  shows "getAllClippedPages w' = Inr []"
  using assms
  by (auto simp: clearAllClippedPages_def getAllClippedPages_def store_clear_def
      store_getAll_def split: option.splits)

theorem clearAll_then_getAll_empty_witness:
  "clearAllClippedPages
     (Opened (Some \<lparr>records =
        [(KNum 1, [''id'' \<mapsto> JNum 1, ''title'' \<mapsto> JStr (js ''A'')]),
         (KNum 2, [''id'' \<mapsto> JNum 2, ''title'' \<mapsto> JStr (js ''B'')])], keygen = 3\<rparr>))
     = (Inr (), Opened (Some \<lparr>records = [], keygen = 3\<rparr>)) \<and>
   getAllClippedPages (Opened (Some \<lparr>records = [], keygen = 3\<rparr>)) = Inr []"
  using clearAll_then_getAll_empty
    [of "Opened (Some \<lparr>records =
        [(KNum 1, [''id'' \<mapsto> JNum 1, ''title'' \<mapsto> JStr (js ''A'')]),
         (KNum 2, [''id'' \<mapsto> JNum 2, ''title'' \<mapsto> JStr (js ''B'')])], keygen = 3\<rparr>)"
        "Opened (Some \<lparr>records = [], keygen = 3\<rparr>)"]
  by (simp add: clearAllClippedPages_def store_clear_def)

section \<open>Facts about the store\<close>

lemma set_insert_record: "set (insert_record k v rs) = insert (k, v) (set rs)"
  by (induction k v rs rule: insert_record.induct) auto

lemma distinct_insert_record:
  "k \<notin> set (map fst rs) \<Longrightarrow> distinct (map fst rs) \<Longrightarrow> distinct (map fst (insert_record k v rs))"
  by (induction k v rs rule: insert_record.induct) (auto simp: set_insert_record)

lemma map_of_insert_record:
  "k \<notin> set (map fst rs) \<Longrightarrow> map_of (insert_record k v rs) k = Some v"
  by (induction k v rs rule: insert_record.induct) auto

lemma map_of_insert_record_other:
  "k' \<noteq> k \<Longrightarrow> map_of (insert_record k v rs) k' = map_of rs k'"
  by (induction k v rs rule: insert_record.induct) auto

lemma filter_insert_record:
  "length (filter P (map snd (insert_record k v rs))) =
     (if P v then Suc (length (filter P (map snd rs))) else length (filter P (map snd rs)))"
  by (induction k v rs rule: insert_record.induct) auto

lemma filter_insert_record_single:
  "\<forall>q \<in> set (map snd rs). \<not> P q \<Longrightarrow> P v \<Longrightarrow> filter P (map snd (insert_record k v rs)) = [v]"
  by (induction k v rs rule: insert_record.induct) auto

lemma to_key_key_val [simp]: "to_key (key_val k) = Some k"
  by (cases k) auto

lemma to_key_Some: "to_key x = Some k \<Longrightarrow> x = key_val k"
  by (cases x) auto

lemma put_new_Inr:
  "put_new k v s = Inr (k', s') \<Longrightarrow>
     k' = k \<and> k \<notin> set (map fst (records s)) \<and> s' = s\<lparr>records := insert_record k v (records s)\<rparr>"
  by (auto simp: put_new_def split: if_splits)

lemma store_add_Inr:
  assumes "store_add v s = Inr (k, s')"
  shows "k \<notin> set (map fst (records s)) \<and>
         (\<exists>v'. records s' = insert_record k v' (records s) \<and>
               field v' ''id'' = key_val k \<and> (\<forall>f. f \<noteq> ''id'' \<longrightarrow> v' f = v f))"
proof (cases "v ''id''")
  case None
  with assms have "put_new (KNum (keygen s)) (v(''id'' \<mapsto> JNum (keygen s))) (s\<lparr>keygen := keygen s + 1\<rparr>) = Inr (k, s')"
    by (simp add: store_add_def split: if_splits)
  from put_new_Inr [OF this] show ?thesis
    by (intro conjI exI [of _ "v(''id'' \<mapsto> JNum (keygen s))"]) (simp_all add: field_def)
next
  case (Some x)
  show ?thesis
  proof (cases x)
    case (JNum n)
    with Some assms have "put_new (KNum n) v
        (s\<lparr>keygen := (if min n (2 ^ 53) \<ge> keygen s then min n (2 ^ 53) + 1 else keygen s)\<rparr>) = Inr (k, s')"
      by (simp add: store_add_def)
    from put_new_Inr [OF this] Some JNum show ?thesis
      by (intro conjI exI [of _ v]) (simp_all add: field_def)
  next
    case (JStr t)
    with Some assms have "put_new (KStr t) v s = Inr (k, s')"
      by (simp add: store_add_def)
    from put_new_Inr [OF this] Some JStr show ?thesis
      by (intro conjI exI [of _ v]) (simp_all add: field_def)
  qed (use assms Some in \<open>simp_all add: store_add_def\<close>)
qed

section \<open>Adding a page\<close>

lemma addClippedPage_Inr:
  assumes "addClippedPage now r w = (Inr k, w')"
  shows "\<exists>s s' data. w = Opened (Some s) \<and> w' = Opened (Some s') \<and>
           new_data now r = Inr data \<and> store_add data s = Inr (k, s')"
  using assms
  by (cases w)
     (auto simp: addClippedPage_def split: option.splits sum.splits prod.splits)

lemma new_data_Inr:
  assumes "new_data now r = Inr data"
  shows "\<exists>words. content_words r = Inr words \<and>
           data = r(''timestamp'' \<mapsto> js_or (field r ''timestamp'') (JStr now),
                    ''wordCount'' \<mapsto> JNum (int (length words)),
                    ''readingTime'' \<mapsto> JNum (reading_time (length words)))"
  using assms by (auto simp: new_data_def split: sum.splits)

lemma old_ids_differ:
  assumes "store_ok s" and "k \<notin> set (map fst (records s))"
  shows "\<forall>q \<in> set (store_getAll s). field q ''id'' \<noteq> key_val k"
proof
  fix q assume "q \<in> set (store_getAll s)"
  then obtain k' where kq: "(k', q) \<in> set (records s)"
    by (auto simp: store_getAll_def)
  with assms(1) have "to_key (field q ''id'') = Some k'"
    by (auto simp: store_ok_def)
  moreover from kq assms(2) have "k' \<noteq> k" by force
  ultimately show "field q ''id'' \<noteq> key_val k" by auto
qed

text \<open>
  C2, as the code has it. In an initialised state whose store exists (and is one the engine
  can have produced), a successful \<open>addClippedPage now r\<close> returns an id \<open>k\<close> that no stored
  record carried; afterwards \<open>getAllClippedPages\<close> includes exactly one record with the id
  \<open>k\<close>, that record has the title, url and content of \<open>r\<close> and its \<^verbatim>\<open>wordCount\<close> and
  \<^verbatim>\<open>readingTime\<close> are neither \<^verbatim>\<open>undefined\<close> nor \<^verbatim>\<open>null\<close>, and the number of records
  with the title, url and content of \<open>r\<close> has grown by exactly one. (Records with the same
  title, url and content that were already stored remain: the module does not look for
  duplicates.)
\<close>

theorem addPage_then_getAll:
  assumes ok: "store_ok s"
    and add: "addClippedPage now r (Opened (Some s)) = (Inr k, w')"
  shows "\<exists>pages p. getAllClippedPages w' = Inr pages \<and>
           (\<forall>q \<in> set (store_getAll s). field q ''id'' \<noteq> key_val k) \<and>
           filter (\<lambda>q. field q ''id'' = key_val k) pages = [p] \<and>
           same_page r p \<and>
           field p ''wordCount'' \<noteq> JUndefined \<and> field p ''wordCount'' \<noteq> JNull \<and>
           field p ''readingTime'' \<noteq> JUndefined \<and> field p ''readingTime'' \<noteq> JNull \<and>
           length (filter (same_page r) pages) =
             Suc (length (filter (same_page r) (store_getAll s)))"
proof -
  from addClippedPage_Inr [OF add] obtain s' data where
    w': "w' = Opened (Some s')" and nd: "new_data now r = Inr data"
    and sa: "store_add data s = Inr (k, s')" by auto
  from new_data_Inr [OF nd] obtain words :: "jsstring list" where
    data: "data = r(''timestamp'' \<mapsto> js_or (field r ''timestamp'') (JStr now),
                    ''wordCount'' \<mapsto> JNum (int (length words)),
                    ''readingTime'' \<mapsto> JNum (reading_time (length words)))" by blast
  from store_add_Inr [OF sa] obtain p where
    fresh: "k \<notin> set (map fst (records s))"
    and recs: "records s' = insert_record k p (records s)"
    and pid: "field p ''id'' = key_val k"
    and rest: "\<forall>f. f \<noteq> ''id'' \<longrightarrow> p f = data f" by auto
  have old: "\<forall>q \<in> set (store_getAll s). field q ''id'' \<noteq> key_val k"
    by (rule old_ids_differ [OF ok fresh])
  have same: "same_page r p"
    using rest by (simp add: same_page_def data)
  have wc: "field p ''wordCount'' = JNum (int (length words))"
    and rt: "field p ''readingTime'' = JNum (reading_time (length words))"
    using rest by (simp_all add: field_def data)
  have one: "filter (\<lambda>q. field q ''id'' = key_val k) (store_getAll s') = [p]"
    unfolding store_getAll_def recs
    using old pid by (intro filter_insert_record_single) (simp_all add: store_getAll_def)
  have cnt: "length (filter (same_page r) (store_getAll s')) =
      Suc (length (filter (same_page r) (store_getAll s)))"
    unfolding store_getAll_def recs using same by (simp only: filter_insert_record if_True)
  show ?thesis
    by (intro exI [of _ "store_getAll s'"] exI [of _ p])
       (simp add: w' getAllClippedPages_def old one same wc rt cnt)
qed

text \<open>
  C9, as the code has it. Whenever \<open>addClippedPage now r\<close> succeeds with id \<open>k\<close>, the record
  stored under \<open>k\<close> has the \<^verbatim>\<open>wordCount\<close> and \<^verbatim>\<open>readingTime\<close> computed from the content
  of \<open>r\<close>, whatever \<open>r\<close> itself gives for these two fields; its \<^verbatim>\<open>timestamp\<close> is the one
  of \<open>r\<close> when that is truthy, and the current time when it is absent or falsy
  (\<^verbatim>\<open>undefined\<close>, \<^verbatim>\<open>null\<close>, \<^verbatim>\<open>false\<close>, \<^verbatim>\<open>0\<close>, the empty string).
\<close>

theorem addPage_stored_fields:
  assumes add: "addClippedPage now r w = (Inr k, w')"
  shows "\<exists>s s' d words. w = Opened (Some s) \<and> w' = Opened (Some s') \<and>
           map_of (records s') k = Some d \<and>
           content_words r = Inr words \<and>
           field d ''wordCount'' = JNum (int (length words)) \<and>
           field d ''readingTime'' = JNum (reading_time (length words)) \<and>
           field d ''timestamp'' =
             (if truthy (field r ''timestamp'') then field r ''timestamp'' else JStr now)"
proof -
  from addClippedPage_Inr [OF add] obtain s s' data where
    w: "w = Opened (Some s)" and w': "w' = Opened (Some s')"
    and nd: "new_data now r = Inr data"
    and sa: "store_add data s = Inr (k, s')" by auto
  from new_data_Inr [OF nd] obtain words where cw: "content_words r = Inr words" and
    data: "data = r(''timestamp'' \<mapsto> js_or (field r ''timestamp'') (JStr now),
                    ''wordCount'' \<mapsto> JNum (int (length words)),
                    ''readingTime'' \<mapsto> JNum (reading_time (length words)))" by auto
  from store_add_Inr [OF sa] obtain d where
    fresh: "k \<notin> set (map fst (records s))"
    and recs: "records s' = insert_record k d (records s)"
    and rest: "\<forall>f. f \<noteq> ''id'' \<longrightarrow> d f = data f" by auto
  have look: "map_of (records s') k = Some d"
    unfolding recs by (rule map_of_insert_record [OF fresh])
  have "field d ''wordCount'' = JNum (int (length words))"
    and "field d ''readingTime'' = JNum (reading_time (length words))"
    and "field d ''timestamp'' = js_or (field r ''timestamp'') (JStr now)"
    using rest by (simp_all add: field_def data)
  with w w' look cw show ?thesis by (simp add: js_or_def)
qed

lemma words_of_empty: "words_of [] = []"
  by (simp add: words_of_def trim_def split_ws.simps)

lemma reading_time_0: "reading_time 0 = 0"
  by (simp add: reading_time_def)

lemma keygen_fresh:
  assumes "store_ok s" and "keygen s \<le> 2 ^ 53"
  shows "KNum (keygen s) \<notin> set (map fst (records s))"
proof
  assume "KNum (keygen s) \<in> set (map fst (records s))"
  with assms have "key_below (keygen s) (KNum (keygen s))"
    unfolding store_ok_def by blast
  then show False by simp
qed

text \<open>
  C10. A record whose content is absent or falsy is accepted: with the store present, no
  property \<^verbatim>\<open>id\<close> in the record and a key generator that is not exhausted, \<open>addClippedPage\<close>
  succeeds with the generator's number as id, the stored record has \<^verbatim>\<open>wordCount\<close> 0 and
  \<^verbatim>\<open>readingTime\<close> 0, and its content field is the one supplied (absent when absent).
\<close>

theorem addPage_falsy_content:
  assumes falsy: "\<not> truthy (field r ''content'')"
    and noid: "r ''id'' = None"
    and ok: "store_ok s" and gen: "keygen s \<le> 2 ^ 53"
  shows "\<exists>s' d. addClippedPage now r (Opened (Some s)) = (Inr (KNum (keygen s)), Opened (Some s')) \<and>
           map_of (records s') (KNum (keygen s)) = Some d \<and>
           field d ''wordCount'' = JNum 0 \<and> field d ''readingTime'' = JNum 0 \<and>
           d ''content'' = r ''content''"
proof -
  let ?data = "r(''timestamp'' \<mapsto> js_or (field r ''timestamp'') (JStr now),
                 ''wordCount'' \<mapsto> JNum 0, ''readingTime'' \<mapsto> JNum 0)"
  let ?d = "?data(''id'' \<mapsto> JNum (keygen s))"
  let ?s' = "s\<lparr>keygen := keygen s + 1, records := insert_record (KNum (keygen s)) ?d (records s)\<rparr>"
  have cw: "content_words r = Inr []"
    using falsy by (simp add: content_words_def js_or_def words_of_empty)
  have nd: "new_data now r = Inr ?data"
    by (simp add: new_data_def cw reading_time_0)
  have "?data ''id'' = None"
    using noid by simp
  then have sa: "store_add ?data s = Inr (KNum (keygen s), ?s')"
    using gen keygen_fresh [OF ok gen] by (simp add: store_add_def put_new_def)
  have add: "addClippedPage now r (Opened (Some s)) = (Inr (KNum (keygen s)), Opened (Some ?s'))"
    by (simp add: addClippedPage_def nd sa)
  have "map_of (insert_record (KNum (keygen s)) ?d (records s)) (KNum (keygen s)) = Some ?d"
    by (rule map_of_insert_record [OF keygen_fresh [OF ok gen]])
  then have look: "map_of (records ?s') (KNum (keygen s)) = Some ?d" by simp
  have flds: "field ?d ''wordCount'' = JNum 0" "field ?d ''readingTime'' = JNum 0"
    "?d ''content'' = r ''content''"
    by (simp_all add: field_def)
  from add look flds show ?thesis by blast
qed

lemma reading_time_div: "reading_time n = (int n + 199) div 200"
proof -
  have "real n / 200 = of_int (int n) / of_int 200" by simp
  then have "reading_time n = - (- int n div 200)"
    unfolding reading_time_def by (simp only: ceiling_divide_eq_div)
  also have "\<dots> = (int n + 199) div 200" by linarith
  finally show ?thesis .
qed

text \<open>
  The wording "exactly one record whose title, url and content equal r's" does not hold when
  the page is already stored: after the page of record 1 is added again, two of the records
  returned by \<open>getAllClippedPages\<close> have its title, url and content.
\<close>

theorem addPage_duplicate_counterexample:
  "addClippedPage (js ''2024-05-01T10:00:00.000Z'')
     [''title'' \<mapsto> JStr (js ''A''), ''url'' \<mapsto> JStr (js ''http://x''), ''content'' \<mapsto> JStr (js ''one two three'')]
     (Opened (Some \<lparr>records =
        [(KNum 1, [''title'' \<mapsto> JStr (js ''A''), ''url'' \<mapsto> JStr (js ''http://x''),
                   ''content'' \<mapsto> JStr (js ''one two three''),
                   ''timestamp'' \<mapsto> JStr (js ''2024-04-30T09:00:00.000Z''),
                   ''wordCount'' \<mapsto> JNum 3, ''readingTime'' \<mapsto> JNum 1, ''id'' \<mapsto> JNum 1])],
        keygen = 2\<rparr>))
   = (Inr (KNum 2),
      Opened (Some \<lparr>records =
        [(KNum 1, [''title'' \<mapsto> JStr (js ''A''), ''url'' \<mapsto> JStr (js ''http://x''),
                   ''content'' \<mapsto> JStr (js ''one two three''),
                   ''timestamp'' \<mapsto> JStr (js ''2024-04-30T09:00:00.000Z''),
                   ''wordCount'' \<mapsto> JNum 3, ''readingTime'' \<mapsto> JNum 1, ''id'' \<mapsto> JNum 1]),
         (KNum 2, [''title'' \<mapsto> JStr (js ''A''), ''url'' \<mapsto> JStr (js ''http://x''),
                   ''content'' \<mapsto> JStr (js ''one two three''),
                   ''timestamp'' \<mapsto> JStr (js ''2024-05-01T10:00:00.000Z''),
                   ''wordCount'' \<mapsto> JNum 3, ''readingTime'' \<mapsto> JNum 1, ''id'' \<mapsto> JNum 2])],
        keygen = 3\<rparr>)) \<and>
   length (filter
     (same_page [''title'' \<mapsto> JStr (js ''A''), ''url'' \<mapsto> JStr (js ''http://x''),
                 ''content'' \<mapsto> JStr (js ''one two three'')])
     (case getAllClippedPages (snd (addClippedPage (js ''2024-05-01T10:00:00.000Z'')
        [''title'' \<mapsto> JStr (js ''A''), ''url'' \<mapsto> JStr (js ''http://x''), ''content'' \<mapsto> JStr (js ''one two three'')]
        (Opened (Some \<lparr>records =
          [(KNum 1, [''title'' \<mapsto> JStr (js ''A''), ''url'' \<mapsto> JStr (js ''http://x''),
                     ''content'' \<mapsto> JStr (js ''one two three''),
                     ''timestamp'' \<mapsto> JStr (js ''2024-04-30T09:00:00.000Z''),
                     ''wordCount'' \<mapsto> JNum 3, ''readingTime'' \<mapsto> JNum 1, ''id'' \<mapsto> JNum 1])],
          keygen = 2\<rparr>)))) of Inr pages \<Rightarrow> pages | Inl e \<Rightarrow> [])) = 2"
  by (simp add: addClippedPage_def new_data_def content_words_def js_or_def field_def
      words_of_def trim_def is_space_def js_def split_ws.simps store_add_def put_new_def
      reading_time_div getAllClippedPages_def store_getAll_def same_page_def)

text \<open>
  A timestamp that is supplied and falsy is not stored unchanged: the caller's empty string
  is replaced by the current time.
\<close>

theorem addPage_falsy_timestamp_counterexample:
  "addClippedPage (js ''2024-05-01T10:00:00.000Z'')
     [''title'' \<mapsto> JStr (js ''A''), ''url'' \<mapsto> JStr (js ''http://x''), ''content'' \<mapsto> JStr (js ''one''),
      ''timestamp'' \<mapsto> JStr []]
     (Opened (Some \<lparr>records = [], keygen = 1\<rparr>))
   = (Inr (KNum 1),
      Opened (Some \<lparr>records =
        [(KNum 1, [''title'' \<mapsto> JStr (js ''A''), ''url'' \<mapsto> JStr (js ''http://x''),
                   ''content'' \<mapsto> JStr (js ''one''),
                   ''timestamp'' \<mapsto> JStr (js ''2024-05-01T10:00:00.000Z''),
                   ''wordCount'' \<mapsto> JNum 1, ''readingTime'' \<mapsto> JNum 1, ''id'' \<mapsto> JNum 1])],
        keygen = 2\<rparr>))"
  by (simp add: addClippedPage_def new_data_def content_words_def js_or_def field_def
      words_of_def trim_def is_space_def js_def split_ws.simps store_add_def put_new_def
      reading_time_div)

theorem addPage_falsy_content_witness:
  "\<not> truthy (field [''title'' \<mapsto> JStr (js ''A''), ''url'' \<mapsto> JStr (js ''http://x'')] ''content'') \<and>
   [''title'' \<mapsto> JStr (js ''A''), ''url'' \<mapsto> JStr (js ''http://x'')] ''id'' = None \<and>
   store_ok \<lparr>records = [], keygen = 1\<rparr> \<and>
   keygen \<lparr>records = [], keygen = 1\<rparr> \<le> 2 ^ 53 \<and>
   (\<exists>s' d. addClippedPage (js ''2024-05-01T10:00:00.000Z'')
              [''title'' \<mapsto> JStr (js ''A''), ''url'' \<mapsto> JStr (js ''http://x'')]
              (Opened (Some \<lparr>records = [], keygen = 1\<rparr>))
            = (Inr (KNum (keygen \<lparr>records = [], keygen = 1\<rparr>)), Opened (Some s')) \<and>
          map_of (records s') (KNum (keygen \<lparr>records = [], keygen = 1\<rparr>)) = Some d \<and>
          field d ''wordCount'' = JNum 0 \<and> field d ''readingTime'' = JNum 0 \<and>
          d ''content'' = [''title'' \<mapsto> JStr (js ''A''), ''url'' \<mapsto> JStr (js ''http://x'')] ''content'')"
proof -
  have h1: "\<not> truthy (field [''title'' \<mapsto> JStr (js ''A''), ''url'' \<mapsto> JStr (js ''http://x'')] ''content'')"
    and h2: "[''title'' \<mapsto> JStr (js ''A''), ''url'' \<mapsto> JStr (js ''http://x'')] ''id'' = None"
    by (simp_all add: field_def)
  have h3: "store_ok \<lparr>records = [], keygen = 1\<rparr>"
    and h4: "keygen \<lparr>records = [], keygen = 1\<rparr> \<le> 2 ^ 53"
    by (simp_all add: store_ok_def)
  from addPage_falsy_content [OF h1 h2 h3 h4, of "js ''2024-05-01T10:00:00.000Z''"] h1 h2 h3 h4
  show ?thesis by blast
qed

theorem addPage_then_getAll_witness:
  "store_ok \<lparr>records =
      [(KNum 4, [''title'' \<mapsto> JStr (js ''B''), ''url'' \<mapsto> JStr (js ''http://y''),
                 ''content'' \<mapsto> JStr (js ''old''), ''wordCount'' \<mapsto> JNum 1,
                 ''readingTime'' \<mapsto> JNum 1, ''id'' \<mapsto> JNum 4])], keygen = 5\<rparr> \<and>
   addClippedPage (js ''2024-05-01T10:00:00.000Z'')
     [''title'' \<mapsto> JStr (js ''A''), ''url'' \<mapsto> JStr (js ''http://x''), ''content'' \<mapsto> JStr (js ''one two three'')]
     (Opened (Some \<lparr>records =
        [(KNum 4, [''title'' \<mapsto> JStr (js ''B''), ''url'' \<mapsto> JStr (js ''http://y''),
                   ''content'' \<mapsto> JStr (js ''old''), ''wordCount'' \<mapsto> JNum 1,
                   ''readingTime'' \<mapsto> JNum 1, ''id'' \<mapsto> JNum 4])], keygen = 5\<rparr>))
   = (Inr (KNum 5),
      Opened (Some \<lparr>records =
        [(KNum 4, [''title'' \<mapsto> JStr (js ''B''), ''url'' \<mapsto> JStr (js ''http://y''),
                   ''content'' \<mapsto> JStr (js ''old''), ''wordCount'' \<mapsto> JNum 1,
                   ''readingTime'' \<mapsto> JNum 1, ''id'' \<mapsto> JNum 4]),
         (KNum 5, [''title'' \<mapsto> JStr (js ''A''), ''url'' \<mapsto> JStr (js ''http://x''),
                   ''content'' \<mapsto> JStr (js ''one two three''),
                   ''timestamp'' \<mapsto> JStr (js ''2024-05-01T10:00:00.000Z''),
                   ''wordCount'' \<mapsto> JNum 3, ''readingTime'' \<mapsto> JNum 1, ''id'' \<mapsto> JNum 5])],
        keygen = 6\<rparr>)) \<and>
   (\<exists>pages p.
      getAllClippedPages (Opened (Some \<lparr>records =
        [(KNum 4, [''title'' \<mapsto> JStr (js ''B''), ''url'' \<mapsto> JStr (js ''http://y''),
                   ''content'' \<mapsto> JStr (js ''old''), ''wordCount'' \<mapsto> JNum 1,
                   ''readingTime'' \<mapsto> JNum 1, ''id'' \<mapsto> JNum 4]),
         (KNum 5, [''title'' \<mapsto> JStr (js ''A''), ''url'' \<mapsto> JStr (js ''http://x''),
                   ''content'' \<mapsto> JStr (js ''one two three''),
                   ''timestamp'' \<mapsto> JStr (js ''2024-05-01T10:00:00.000Z''),
                   ''wordCount'' \<mapsto> JNum 3, ''readingTime'' \<mapsto> JNum 1, ''id'' \<mapsto> JNum 5])],
        keygen = 6\<rparr>)) = Inr pages \<and>
      filter (\<lambda>q. field q ''id'' = key_val (KNum 5)) pages = [p] \<and>
      same_page [''title'' \<mapsto> JStr (js ''A''), ''url'' \<mapsto> JStr (js ''http://x''),
                 ''content'' \<mapsto> JStr (js ''one two three'')] p \<and>
      field p ''wordCount'' \<noteq> JUndefined \<and> field p ''wordCount'' \<noteq> JNull \<and>
      field p ''readingTime'' \<noteq> JUndefined \<and> field p ''readingTime'' \<noteq> JNull)"
proof -
  let ?s = "\<lparr>records =
      [(KNum 4, [''title'' \<mapsto> JStr (js ''B''), ''url'' \<mapsto> JStr (js ''http://y''),
                 ''content'' \<mapsto> JStr (js ''old''), ''wordCount'' \<mapsto> JNum 1,
                 ''readingTime'' \<mapsto> JNum 1, ''id'' \<mapsto> JNum 4])], keygen = 5\<rparr>"
  let ?r = "[''title'' \<mapsto> JStr (js ''A''), ''url'' \<mapsto> JStr (js ''http://x''),
             ''content'' \<mapsto> JStr (js ''one two three'')]"
  let ?w' = "Opened (Some \<lparr>records =
        [(KNum 4, [''title'' \<mapsto> JStr (js ''B''), ''url'' \<mapsto> JStr (js ''http://y''),
                   ''content'' \<mapsto> JStr (js ''old''), ''wordCount'' \<mapsto> JNum 1,
                   ''readingTime'' \<mapsto> JNum 1, ''id'' \<mapsto> JNum 4]),
         (KNum 5, [''title'' \<mapsto> JStr (js ''A''), ''url'' \<mapsto> JStr (js ''http://x''),
                   ''content'' \<mapsto> JStr (js ''one two three''),
                   ''timestamp'' \<mapsto> JStr (js ''2024-05-01T10:00:00.000Z''),
                   ''wordCount'' \<mapsto> JNum 3, ''readingTime'' \<mapsto> JNum 1, ''id'' \<mapsto> JNum 5])],
        keygen = 6\<rparr>)"
  have ok: "store_ok ?s"
    by (simp add: store_ok_def field_def)
  have add: "addClippedPage (js ''2024-05-01T10:00:00.000Z'') ?r (Opened (Some ?s)) = (Inr (KNum 5), ?w')"
    by (simp add: addClippedPage_def new_data_def content_words_def js_or_def field_def
        words_of_def trim_def is_space_def js_def split_ws.simps store_add_def put_new_def
        reading_time_div)
  from addPage_then_getAll [OF ok add] ok add show ?thesis by blast
qed

theorem addPage_stored_fields_witness:
  "addClippedPage (js ''2024-05-01T10:00:00.000Z'')
     [''title'' \<mapsto> JStr (js ''A''), ''url'' \<mapsto> JStr (js ''http://x''), ''content'' \<mapsto> JStr (js ''one two three''),
      ''timestamp'' \<mapsto> JStr (js ''2020-01-01T00:00:00.000Z''),
      ''wordCount'' \<mapsto> JNum 999, ''readingTime'' \<mapsto> JNum 7]
     (Opened (Some \<lparr>records = [], keygen = 1\<rparr>))
   = (Inr (KNum 1),
      Opened (Some \<lparr>records =
        [(KNum 1, [''title'' \<mapsto> JStr (js ''A''), ''url'' \<mapsto> JStr (js ''http://x''),
                   ''content'' \<mapsto> JStr (js ''one two three''),
                   ''timestamp'' \<mapsto> JStr (js ''2020-01-01T00:00:00.000Z''),
                   ''wordCount'' \<mapsto> JNum 3, ''readingTime'' \<mapsto> JNum 1, ''id'' \<mapsto> JNum 1])],
        keygen = 2\<rparr>)) \<and>
   (\<exists>d words.
      map_of [(KNum 1, [''title'' \<mapsto> JStr (js ''A''), ''url'' \<mapsto> JStr (js ''http://x''),
                   ''content'' \<mapsto> JStr (js ''one two three''),
                   ''timestamp'' \<mapsto> JStr (js ''2020-01-01T00:00:00.000Z''),
                   ''wordCount'' \<mapsto> JNum 3, ''readingTime'' \<mapsto> JNum 1, ''id'' \<mapsto> JNum 1])]
        (KNum 1) = Some d \<and>
      content_words
        [''title'' \<mapsto> JStr (js ''A''), ''url'' \<mapsto> JStr (js ''http://x''), ''content'' \<mapsto> JStr (js ''one two three''),
         ''timestamp'' \<mapsto> JStr (js ''2020-01-01T00:00:00.000Z''),
         ''wordCount'' \<mapsto> JNum 999, ''readingTime'' \<mapsto> JNum 7] = Inr words \<and>
      field d ''wordCount'' = JNum (int (length words)) \<and>
      field d ''readingTime'' = JNum (reading_time (length words)) \<and>
      field d ''timestamp'' = JStr (js ''2020-01-01T00:00:00.000Z''))"
proof -
  let ?r = "[''title'' \<mapsto> JStr (js ''A''), ''url'' \<mapsto> JStr (js ''http://x''), ''content'' \<mapsto> JStr (js ''one two three''),
      ''timestamp'' \<mapsto> JStr (js ''2020-01-01T00:00:00.000Z''),
      ''wordCount'' \<mapsto> JNum 999, ''readingTime'' \<mapsto> JNum 7]"
  let ?s' = "\<lparr>records =
        [(KNum 1, [''title'' \<mapsto> JStr (js ''A''), ''url'' \<mapsto> JStr (js ''http://x''),
                   ''content'' \<mapsto> JStr (js ''one two three''),
                   ''timestamp'' \<mapsto> JStr (js ''2020-01-01T00:00:00.000Z''),
                   ''wordCount'' \<mapsto> JNum 3, ''readingTime'' \<mapsto> JNum 1, ''id'' \<mapsto> JNum 1])],
        keygen = 2\<rparr>"
  have add: "addClippedPage (js ''2024-05-01T10:00:00.000Z'') ?r (Opened (Some \<lparr>records = [], keygen = 1\<rparr>))
      = (Inr (KNum 1), Opened (Some ?s'))"
    by (simp add: addClippedPage_def new_data_def content_words_def js_or_def field_def
        words_of_def trim_def is_space_def js_def split_ws.simps store_add_def put_new_def
        reading_time_div)
  have ts: "truthy (field ?r ''timestamp'')" "field ?r ''timestamp'' = JStr (js ''2020-01-01T00:00:00.000Z'')"
    by (simp_all add: field_def js_def)
  from addPage_stored_fields [OF add] obtain d words where
    "map_of (records ?s') (KNum 1) = Some d" "content_words ?r = Inr words"
    "field d ''wordCount'' = JNum (int (length words))"
    "field d ''readingTime'' = JNum (reading_time (length words))"
    "field d ''timestamp'' = (if truthy (field ?r ''timestamp'') then field ?r ''timestamp''
       else JStr (js ''2024-05-01T10:00:00.000Z''))"
    by auto
  with ts have "\<exists>d words. map_of (records ?s') (KNum 1) = Some d \<and> content_words ?r = Inr words \<and>
    field d ''wordCount'' = JNum (int (length words)) \<and>
    field d ''readingTime'' = JNum (reading_time (length words)) \<and>
    field d ''timestamp'' = JStr (js ''2020-01-01T00:00:00.000Z'')"
    by (simp only: if_True) blast
  with add show ?thesis by simp
qed

section \<open>The migration backfill\<close>

lemma content_words_upd:
  "content_words (data(''wordCount'' \<mapsto> a, ''readingTime'' \<mapsto> b)) = content_words data"
  by (simp add: content_words_def field_def)

lemma field_id_upd:
  "field (data(''wordCount'' \<mapsto> a, ''readingTime'' \<mapsto> b)) ''id'' = field data ''id''"
  by (simp add: field_def)

lemma backfill_record_Inr:
  assumes "backfill_record (k, data) = Inr kd'"
  shows "fst kd' = k \<and>
         (if needs_backfill data
          then to_key (field data ''id'') = Some k \<and>
               (\<exists>words. content_words data = Inr words \<and>
                  snd kd' = data(''wordCount'' \<mapsto> JNum (int (length words)),
                                 ''readingTime'' \<mapsto> JNum (reading_time (length words))))
          else snd kd' = data)"
  using assms
  by (auto simp: backfill_record_def cursor_update_def field_id_upd
      split: sum.splits if_splits)

lemma backfill_record_idem:
  assumes "backfill_record kd = Inr kd'"
  shows "backfill_record kd' = Inr kd'"
proof -
  obtain k data where kd: "kd = (k, data)" by (cases kd)
  obtain k' data' where kd': "kd' = (k', data')" by (cases kd')
  from backfill_record_Inr [OF assms [unfolded kd]] have k': "k' = k"
    and cases: "if needs_backfill data
          then to_key (field data ''id'') = Some k \<and>
               (\<exists>words. content_words data = Inr words \<and>
                  data' = data(''wordCount'' \<mapsto> JNum (int (length words)),
                                 ''readingTime'' \<mapsto> JNum (reading_time (length words))))
          else data' = data"
    by (auto simp: kd' split: if_splits)
  show ?thesis
  proof (cases "needs_backfill data'")
    case False
    then show ?thesis by (simp add: kd' backfill_record_def)
  next
    case True
    show ?thesis
    proof (cases "needs_backfill data")
      case False
      with cases have "data' = data" by simp
      with assms show ?thesis by (simp add: kd kd' k')
    next
      case nb: True
      with cases obtain words where key: "to_key (field data ''id'') = Some k"
        and cw: "content_words data = Inr words"
        and d': "data' = data(''wordCount'' \<mapsto> JNum (int (length words)),
                             ''readingTime'' \<mapsto> JNum (reading_time (length words)))"
        by auto
      have cw': "content_words data' = Inr words" by (simp add: d' content_words_upd cw)
      have again: "data'(''wordCount'' \<mapsto> JNum (int (length words)),
                         ''readingTime'' \<mapsto> JNum (reading_time (length words))) = data'"
        by (auto simp: d')
      have "to_key (field data' ''id'') = Some k" by (simp add: d' field_id_upd key)
      with True show ?thesis
        by (simp add: kd' k' backfill_record_def cw' again cursor_update_def)
    qed
  qed
qed

lemma backfill_scan_Inr:
  "backfill_scan rs = Inr rs' \<Longrightarrow> list_all2 (\<lambda>kd kd'. backfill_record kd = Inr kd') rs rs'"
  by (induction rs arbitrary: rs') (auto split: sum.splits)

lemma backfill_scan_idem:
  "backfill_scan rs = Inr rs' \<Longrightarrow> backfill_scan rs' = Inr rs'"
  by (induction rs arbitrary: rs') (auto split: sum.splits dest: backfill_record_idem)

lemma backfill_record_succeeds:
  assumes "to_key (field data ''id'') = Some k"
    and "\<not> truthy (field data ''content'') \<or> (\<exists>t. field data ''content'' = JStr t)"
  shows "\<exists>kd'. backfill_record (k, data) = Inr kd'"
proof -
  have "\<exists>words. content_words data = Inr words"
  proof (cases "truthy (field data ''content'')")
    case True
    with assms(2) obtain t where "field data ''content'' = JStr t" by auto
    with True show ?thesis by (simp add: content_words_def js_or_def)
  next
    case False
    then show ?thesis by (simp add: content_words_def js_or_def)
  qed
  then obtain words where "content_words data = Inr words" by blast
  with assms(1) show ?thesis
    by (simp add: backfill_record_def cursor_update_def field_id_upd)
qed

lemma backfill_scan_succeeds:
  assumes "\<forall>kd \<in> set rs. to_key (field (snd kd) ''id'') = Some (fst kd) \<and>
             (\<not> truthy (field (snd kd) ''content'') \<or> (\<exists>t. field (snd kd) ''content'' = JStr t))"
  shows "\<exists>rs'. backfill_scan rs = Inr rs'"
  using assms
proof (induction rs)
  case Nil
  then show ?case by simp
next
  case (Cons kd rs)
  obtain k data where kd: "kd = (k, data)" by (cases kd)
  from Cons.prems have "\<exists>kd'. backfill_record (k, data) = Inr kd'"
    by (intro backfill_record_succeeds) (simp_all add: kd)
  moreover from Cons have "\<exists>rs'. backfill_scan rs = Inr rs'" by simp
  ultimately show ?case by (auto simp: kd)
qed

text \<open>
  C7. Running the upgrade handler's scan on the store its first run produced gives that
  store again: no record changes. The first run does produce a store whenever every record
  carries its key in \<^verbatim>\<open>id\<close> and has a content that is a string or falsy (and whenever
  there is no store to scan).
\<close>

theorem backfill_idempotent:
  "(onupgradeneeded st = Inr st' \<longrightarrow> onupgradeneeded st' = Inr st') \<and>
   ((\<forall>s. st = Some s \<longrightarrow>
       (\<forall>kd \<in> set (records s). to_key (field (snd kd) ''id'') = Some (fst kd) \<and>
          (\<not> truthy (field (snd kd) ''content'') \<or> (\<exists>t. field (snd kd) ''content'' = JStr t))))
    \<longrightarrow> (\<exists>st1. onupgradeneeded st = Inr st1))"
proof (intro conjI impI)
  assume "onupgradeneeded st = Inr st'"
  then show "onupgradeneeded st' = Inr st'"
    by (cases st) (auto simp: onupgradeneeded_def split: sum.splits dest: backfill_scan_idem)
next
  assume a: "\<forall>s. st = Some s \<longrightarrow>
       (\<forall>kd \<in> set (records s). to_key (field (snd kd) ''id'') = Some (fst kd) \<and>
          (\<not> truthy (field (snd kd) ''content'') \<or> (\<exists>t. field (snd kd) ''content'' = JStr t)))"
  show "\<exists>st1. onupgradeneeded st = Inr st1"
  proof (cases st)
    case None
    then show ?thesis by (simp add: onupgradeneeded_def)
  next
    case (Some s)
    with a backfill_scan_succeeds [of "records s"] obtain rs' where "backfill_scan (records s) = Inr rs'"
      by auto
    with Some show ?thesis by (simp add: onupgradeneeded_def)
  qed
qed

theorem backfill_idempotent_witness:
  "onupgradeneeded (Some \<lparr>records =
      [(KNum 1, [''id'' \<mapsto> JNum 1, ''title'' \<mapsto> JStr (js ''A''), ''content'' \<mapsto> JStr (js ''a b'')]),
       (KNum 2, [''id'' \<mapsto> JNum 2, ''title'' \<mapsto> JStr (js ''B''), ''content'' \<mapsto> JStr (js ''v w x y z''),
                 ''wordCount'' \<mapsto> JNum 5, ''readingTime'' \<mapsto> JNum 1]),
       (KNum 3, [''id'' \<mapsto> JNum 3, ''title'' \<mapsto> JStr (js ''C''), ''content'' \<mapsto> JStr []])],
      keygen = 4\<rparr>)
   = Inr (Some \<lparr>records =
      [(KNum 1, [''id'' \<mapsto> JNum 1, ''title'' \<mapsto> JStr (js ''A''), ''content'' \<mapsto> JStr (js ''a b''),
                 ''wordCount'' \<mapsto> JNum 2, ''readingTime'' \<mapsto> JNum 1]),
       (KNum 2, [''id'' \<mapsto> JNum 2, ''title'' \<mapsto> JStr (js ''B''), ''content'' \<mapsto> JStr (js ''v w x y z''),
                 ''wordCount'' \<mapsto> JNum 5, ''readingTime'' \<mapsto> JNum 1]),
       (KNum 3, [''id'' \<mapsto> JNum 3, ''title'' \<mapsto> JStr (js ''C''), ''content'' \<mapsto> JStr [],
                 ''wordCount'' \<mapsto> JNum 0, ''readingTime'' \<mapsto> JNum 0])],
      keygen = 4\<rparr>) \<and>
   onupgradeneeded (Some \<lparr>records =
      [(KNum 1, [''id'' \<mapsto> JNum 1, ''title'' \<mapsto> JStr (js ''A''), ''content'' \<mapsto> JStr (js ''a b''),
                 ''wordCount'' \<mapsto> JNum 2, ''readingTime'' \<mapsto> JNum 1]),
       (KNum 2, [''id'' \<mapsto> JNum 2, ''title'' \<mapsto> JStr (js ''B''), ''content'' \<mapsto> JStr (js ''v w x y z''),
                 ''wordCount'' \<mapsto> JNum 5, ''readingTime'' \<mapsto> JNum 1]),
       (KNum 3, [''id'' \<mapsto> JNum 3, ''title'' \<mapsto> JStr (js ''C''), ''content'' \<mapsto> JStr [],
                 ''wordCount'' \<mapsto> JNum 0, ''readingTime'' \<mapsto> JNum 0])],
      keygen = 4\<rparr>)
   = Inr (Some \<lparr>records =
      [(KNum 1, [''id'' \<mapsto> JNum 1, ''title'' \<mapsto> JStr (js ''A''), ''content'' \<mapsto> JStr (js ''a b''),
                 ''wordCount'' \<mapsto> JNum 2, ''readingTime'' \<mapsto> JNum 1]),
       (KNum 2, [''id'' \<mapsto> JNum 2, ''title'' \<mapsto> JStr (js ''B''), ''content'' \<mapsto> JStr (js ''v w x y z''),
                 ''wordCount'' \<mapsto> JNum 5, ''readingTime'' \<mapsto> JNum 1]),
       (KNum 3, [''id'' \<mapsto> JNum 3, ''title'' \<mapsto> JStr (js ''C''), ''content'' \<mapsto> JStr [],
                 ''wordCount'' \<mapsto> JNum 0, ''readingTime'' \<mapsto> JNum 0])],
      keygen = 4\<rparr>)"
proof -
  let ?st = "Some \<lparr>records =
      [(KNum 1, [''id'' \<mapsto> JNum 1, ''title'' \<mapsto> JStr (js ''A''), ''content'' \<mapsto> JStr (js ''a b'')]),
       (KNum 2, [''id'' \<mapsto> JNum 2, ''title'' \<mapsto> JStr (js ''B''), ''content'' \<mapsto> JStr (js ''v w x y z''),
                 ''wordCount'' \<mapsto> JNum 5, ''readingTime'' \<mapsto> JNum 1]),
       (KNum 3, [''id'' \<mapsto> JNum 3, ''title'' \<mapsto> JStr (js ''C''), ''content'' \<mapsto> JStr []])],
      keygen = 4\<rparr>"
  let ?st' = "Some \<lparr>records =
      [(KNum 1, [''id'' \<mapsto> JNum 1, ''title'' \<mapsto> JStr (js ''A''), ''content'' \<mapsto> JStr (js ''a b''),
                 ''wordCount'' \<mapsto> JNum 2, ''readingTime'' \<mapsto> JNum 1]),
       (KNum 2, [''id'' \<mapsto> JNum 2, ''title'' \<mapsto> JStr (js ''B''), ''content'' \<mapsto> JStr (js ''v w x y z''),
                 ''wordCount'' \<mapsto> JNum 5, ''readingTime'' \<mapsto> JNum 1]),
       (KNum 3, [''id'' \<mapsto> JNum 3, ''title'' \<mapsto> JStr (js ''C''), ''content'' \<mapsto> JStr [],
                 ''wordCount'' \<mapsto> JNum 0, ''readingTime'' \<mapsto> JNum 0])],
      keygen = 4\<rparr>"
  have wf: "\<forall>s. ?st = Some s \<longrightarrow>
       (\<forall>kd \<in> set (records s). to_key (field (snd kd) ''id'') = Some (fst kd) \<and>
          (\<not> truthy (field (snd kd) ''content'') \<or> (\<exists>t. field (snd kd) ''content'' = JStr t)))"
    by (simp add: field_def)
  with backfill_idempotent [of ?st] have "\<exists>st1. onupgradeneeded ?st = Inr st1" by blast
  moreover have first: "onupgradeneeded ?st = Inr ?st'"
    by (simp add: onupgradeneeded_def backfill_record_def needs_backfill_def content_words_def
        js_or_def field_def words_of_def trim_def is_space_def js_def split_ws.simps
        reading_time_div cursor_update_def)
  ultimately show ?thesis using backfill_idempotent [of ?st ?st'] by blast
qed

lemma initDB_upgrade_Inr:
  assumes "version d < DB_VERSION" and "store d = Some s"
    and "initDB (Closed d) = (Inr (), w')"
  shows "\<exists>rs'. backfill_scan (records s) = Inr rs' \<and> w' = Opened (Some (s\<lparr>records := rs'\<rparr>))"
  using assms
  by (auto simp: initDB_def onupgradeneeded_def split: sum.splits if_splits)

section \<open>The derived fields\<close>

text \<open>
  The pipeline of line 66, \<^verbatim>\<open>trim\<close>, \<^verbatim>\<open>split\<close>, \<^verbatim>\<open>filter\<close>, yields the tokens of the
  one-pass reading \<open>spec_tokens\<close>.
\<close>

lemma tokens_from_nonspace:
  "\<forall>c \<in> set p. \<not> is_space c \<Longrightarrow> tokens_from cur (p @ rest) = tokens_from (rev p @ cur) rest"
  by (induction p arbitrary: cur) auto

lemma tokens_from_spaces:
  "\<forall>c \<in> set ws. is_space c \<Longrightarrow> tokens_from cur ws = (if cur = [] then [] else [rev cur])"
  by (induction ws arbitrary: cur) auto

lemma tokens_from_dropWhile:
  "tokens_from [] (dropWhile is_space s) = tokens_from [] s"
  by (induction s) auto

lemma tokens_from_append_spaces:
  "\<forall>c \<in> set ws. is_space c \<Longrightarrow> tokens_from cur (s @ ws) = tokens_from cur s"
  by (induction s arbitrary: cur) (auto simp: tokens_from_spaces)

lemma tokens_from_space:
  "is_space c \<Longrightarrow>
     tokens_from (rev p) (c # cs) = (if p \<noteq> [] then p # tokens_from [] cs else tokens_from [] cs)"
  by simp

lemma tokens_from_trim: "tokens_from [] (trim s) = tokens_from [] s"
proof -
  let ?t = "dropWhile is_space s"
  have "rev ?t = takeWhile is_space (rev ?t) @ dropWhile is_space (rev ?t)" by simp
  then have "?t = rev (dropWhile is_space (rev ?t)) @ rev (takeWhile is_space (rev ?t))"
    by (metis rev_append rev_rev_ident)
  then have split: "?t = trim s @ rev (takeWhile is_space (rev ?t))"
    by (simp add: trim_def)
  have "\<forall>c \<in> set (rev (takeWhile is_space (rev ?t))). is_space c"
    by (auto dest: set_takeWhileD)
  from tokens_from_append_spaces [OF this, of "[]" "trim s"] split
  have "tokens_from [] ?t = tokens_from [] (trim s)" by simp
  then show ?thesis by (simp add: tokens_from_dropWhile)
qed

lemma split_ws_tokens: "filter (\<lambda>w. w \<noteq> []) (split_ws s) = tokens_from [] s"
proof (induction s rule: split_ws.induct)
  case (1 s)
  let ?piece = "takeWhile (\<lambda>c. \<not> is_space c) s"
  let ?rest = "dropWhile (\<lambda>c. \<not> is_space c) s"
  have "\<forall>c \<in> set ?piece. \<not> is_space c" by (auto dest: set_takeWhileD)
  from tokens_from_nonspace [OF this, of "[]" ?rest]
  have tok: "tokens_from [] s = tokens_from (rev ?piece) ?rest" by simp
  show ?case
  proof (cases "?rest = []")
    case True
    have "split_ws s = [?piece]"
      by (subst split_ws.simps) (simp only: Let_def True refl if_True)
    moreover have "tokens_from (rev ?piece) ?rest = (if ?piece = [] then [] else [?piece])"
      unfolding True by simp
    ultimately show ?thesis by (simp only: tok) simp
  next
    case False
    then obtain c cs where rest: "?rest = c # cs" by (cases ?rest) auto
    then have sp: "is_space c" unfolding dropWhile_eq_Cons_conv by blast
    from "1.IH" [OF refl refl False]
    have IH: "filter (\<lambda>w. w \<noteq> []) (split_ws (dropWhile is_space ?rest)) =
              tokens_from [] (dropWhile is_space ?rest)" .
    have "tokens_from [] (dropWhile is_space ?rest) = tokens_from [] cs"
      using sp by (simp add: rest tokens_from_dropWhile)
    with IH have IH': "filter (\<lambda>w. w \<noteq> []) (split_ws (dropWhile is_space ?rest)) = tokens_from [] cs"
      by simp
    have "split_ws s = ?piece # split_ws (dropWhile is_space ?rest)"
      by (subst split_ws.simps) (simp only: Let_def False if_False)
    then have "filter (\<lambda>w. w \<noteq> []) (split_ws s) =
          (if ?piece \<noteq> [] then ?piece # tokens_from [] cs else tokens_from [] cs)"
      by (simp only: filter.simps IH')
    also have "\<dots> = tokens_from (rev ?piece) ?rest"
      unfolding rest by (rule tokens_from_space [OF sp, symmetric])
    finally show ?thesis by (simp only: tok)
  qed
qed

lemma words_of_spec_tokens: "words_of c = spec_tokens c"
  by (simp add: words_of_def spec_tokens_def split_ws_tokens tokens_from_trim)

lemma spec_tokens_spaces: "\<forall>ch \<in> set c. is_space ch \<Longrightarrow> spec_tokens c = []"
  by (simp add: spec_tokens_def tokens_from_spaces)

lemma spec_tokens_replicate:
  "tokens_from [] (concat (replicate n (js ''w '')) @ s) =
     replicate n (js ''w'') @ tokens_from [] s"
  by (induction n) (simp_all add: is_space_def js_def)

lemma content_words_string:
  assumes "field data ''content'' = JStr c"
  shows "content_words data = Inr (words_of c)"
proof (cases "c = []")
  case True
  with assms show ?thesis by (simp add: content_words_def js_or_def)
next
  case False
  with assms show ?thesis by (simp add: content_words_def js_or_def)
qed

text \<open>
  C3. For a content that is the string \<open>c\<close>, the record built by \<open>addClippedPage\<close> (and the
  record the migration writes back, when it rewrites one) has as \<^verbatim>\<open>wordCount\<close> the number of
  white-space-delimited non-empty tokens of \<open>c\<close> and as \<^verbatim>\<open>readingTime\<close> that number divided
  by 200 and rounded up; both are 0 when \<open>c\<close> is empty or consists of white space only.
\<close>

theorem metadata_derivation:
  assumes "field pageData ''content'' = JStr c"
  shows "(\<exists>data. new_data now pageData = Inr data \<and>
            field data ''wordCount'' = JNum (int (length (spec_tokens c))) \<and>
            field data ''readingTime'' = JNum \<lceil>real (length (spec_tokens c)) / 200\<rceil> \<and>
            field data ''readingTime'' = JNum (spec_reading_time (length (spec_tokens c))) \<and>
            ((\<forall>ch \<in> set c. is_space ch) \<longrightarrow>
               field data ''wordCount'' = JNum 0 \<and> field data ''readingTime'' = JNum 0)) \<and>
         (needs_backfill pageData \<and> to_key (field pageData ''id'') = Some k \<longrightarrow>
            (\<exists>data. backfill_record (k, pageData) = Inr (k, data) \<and>
               field data ''wordCount'' = JNum (int (length (spec_tokens c))) \<and>
               field data ''readingTime'' = JNum \<lceil>real (length (spec_tokens c)) / 200\<rceil> \<and>
               field data ''readingTime'' = JNum (spec_reading_time (length (spec_tokens c))) \<and>
               ((\<forall>ch \<in> set c. is_space ch) \<longrightarrow>
                  field data ''wordCount'' = JNum 0 \<and> field data ''readingTime'' = JNum 0)))"
proof -
  let ?n = "length (spec_tokens c)"
  have cw: "content_words pageData = Inr (spec_tokens c)"
    using content_words_string [OF assms] by (simp add: words_of_spec_tokens)
  have rt: "reading_time ?n = \<lceil>real ?n / 200\<rceil>" "reading_time ?n = spec_reading_time ?n"
    by (simp_all add: reading_time_def [symmetric] reading_time_div spec_reading_time_def)
  have zero: "?n = 0 \<and> reading_time ?n = 0" if "\<forall>ch \<in> set c. is_space ch"
    using that by (simp add: spec_tokens_spaces reading_time_div)
  let ?new = "pageData(''timestamp'' \<mapsto> js_or (field pageData ''timestamp'') (JStr now),
                ''wordCount'' \<mapsto> JNum (int ?n), ''readingTime'' \<mapsto> JNum (reading_time ?n))"
  have "new_data now pageData = Inr ?new"
    by (simp add: new_data_def cw)
  moreover have "field ?new ''wordCount'' = JNum (int ?n)"
    "field ?new ''readingTime'' = JNum (reading_time ?n)"
    by (simp_all add: field_def)
  ultimately have first: "\<exists>data. new_data now pageData = Inr data \<and>
            field data ''wordCount'' = JNum (int ?n) \<and>
            field data ''readingTime'' = JNum \<lceil>real ?n / 200\<rceil> \<and>
            field data ''readingTime'' = JNum (spec_reading_time ?n) \<and>
            ((\<forall>ch \<in> set c. is_space ch) \<longrightarrow>
               field data ''wordCount'' = JNum 0 \<and> field data ''readingTime'' = JNum 0)"
    using rt zero by (intro exI [of _ ?new]) auto
  let ?upd = "pageData(''wordCount'' \<mapsto> JNum (int ?n), ''readingTime'' \<mapsto> JNum (reading_time ?n))"
  have second: "\<exists>data. backfill_record (k, pageData) = Inr (k, data) \<and>
               field data ''wordCount'' = JNum (int ?n) \<and>
               field data ''readingTime'' = JNum \<lceil>real ?n / 200\<rceil> \<and>
               field data ''readingTime'' = JNum (spec_reading_time ?n) \<and>
               ((\<forall>ch \<in> set c. is_space ch) \<longrightarrow>
                  field data ''wordCount'' = JNum 0 \<and> field data ''readingTime'' = JNum 0)"
    if nb: "needs_backfill pageData" and key: "to_key (field pageData ''id'') = Some k"
  proof -
    have "backfill_record (k, pageData) = Inr (k, ?upd)"
      using nb key by (simp add: backfill_record_def cw cursor_update_def field_id_upd)
    moreover have "field ?upd ''wordCount'' = JNum (int ?n)"
      "field ?upd ''readingTime'' = JNum (reading_time ?n)"
      by (simp_all add: field_def)
    ultimately show ?thesis
      using rt zero by (intro exI [of _ ?upd]) auto
  qed
  from first second show ?thesis by blast
qed

text \<open>
  The scenarios of the spec: "one two three" has 3 words and 1 minute, 450 tokens separated
  by single spaces have 450 words and 3 minutes, white space alone has none, and the
  migration gives a record with content "a b" 2 words and 1 minute. White space beyond
  ASCII separates words too (em space, no-break space, ideographic space, byte order mark,
  ogham space mark), while U+200B, U+0085, U+180E and U+1FFF, which \<^verbatim>\<open>\s\<close> does not
  match, do not. The white-space-only content lists every code unit that \<^verbatim>\<open>\s\<close> matches.
\<close>

theorem metadata_derivation_witness:
  "field [''title'' \<mapsto> JStr (js ''A''), ''url'' \<mapsto> JStr (js ''http://x''),
          ''content'' \<mapsto> JStr (js ''one two three'')]
     ''content'' = JStr (js ''one two three'') \<and>
   (\<exists>data. new_data (js ''2024-05-01T10:00:00.000Z'')
        [''title'' \<mapsto> JStr (js ''A''), ''url'' \<mapsto> JStr (js ''http://x''),
         ''content'' \<mapsto> JStr (js ''one two three'')]
        = Inr data \<and>
      field data ''wordCount'' = JNum 3 \<and> field data ''readingTime'' = JNum 1) \<and>
   field [''content'' \<mapsto> JStr (concat (replicate 449 (js ''w '')) @ js ''w'')] ''content''
     = JStr (concat (replicate 449 (js ''w '')) @ js ''w'') \<and>
   (\<exists>data. new_data (js ''2024-05-01T10:00:00.000Z'')
        [''content'' \<mapsto> JStr (concat (replicate 449 (js ''w '')) @ js ''w'')] = Inr data \<and>
      field data ''wordCount'' = JNum 450 \<and> field data ''readingTime'' = JNum 3) \<and>
   field [''content'' \<mapsto> JStr [0x0009, 0x000A, 0x000B, 0x000C, 0x000D, 0x0020, 0x00A0, 0x1680, 0x2000, 0x2001,
            0x2002, 0x2003, 0x2004, 0x2005, 0x2006, 0x2007, 0x2008, 0x2009, 0x200A, 0x2028,
            0x2029, 0x202F, 0x205F, 0x3000, 0xFEFF]] ''content''
     = JStr [0x0009, 0x000A, 0x000B, 0x000C, 0x000D, 0x0020, 0x00A0, 0x1680, 0x2000, 0x2001,
            0x2002, 0x2003, 0x2004, 0x2005, 0x2006, 0x2007, 0x2008, 0x2009, 0x200A, 0x2028,
            0x2029, 0x202F, 0x205F, 0x3000, 0xFEFF] \<and>
   (\<exists>data. new_data (js ''2024-05-01T10:00:00.000Z'')
        [''content'' \<mapsto> JStr [0x0009, 0x000A, 0x000B, 0x000C, 0x000D, 0x0020, 0x00A0, 0x1680, 0x2000, 0x2001,
            0x2002, 0x2003, 0x2004, 0x2005, 0x2006, 0x2007, 0x2008, 0x2009, 0x200A, 0x2028,
            0x2029, 0x202F, 0x205F, 0x3000, 0xFEFF]] = Inr data \<and>
      field data ''wordCount'' = JNum 0 \<and> field data ''readingTime'' = JNum 0) \<and>
   field [''content'' \<mapsto>
            JStr [0x0061, 0x2003, 0x0062, 0x00A0, 0x3000, 0x0063, 0xFEFF, 0x0064, 0x1680, 0x0065]]
     ''content''
     = JStr [0x0061, 0x2003, 0x0062, 0x00A0, 0x3000, 0x0063, 0xFEFF, 0x0064, 0x1680, 0x0065] \<and>
   (\<exists>data. new_data (js ''2024-05-01T10:00:00.000Z'')
        [''content'' \<mapsto>
           JStr [0x0061, 0x2003, 0x0062, 0x00A0, 0x3000, 0x0063, 0xFEFF, 0x0064, 0x1680, 0x0065]]
        = Inr data \<and>
      field data ''wordCount'' = JNum 5 \<and> field data ''readingTime'' = JNum 1) \<and>
   field [''content'' \<mapsto> JStr [0x0061, 0x200B, 0x0062, 0x0085, 0x0063, 0x180E, 0x0064, 0x1FFF, 0x0065]] ''content''
     = JStr [0x0061, 0x200B, 0x0062, 0x0085, 0x0063, 0x180E, 0x0064, 0x1FFF, 0x0065] \<and>
   (\<exists>data. new_data (js ''2024-05-01T10:00:00.000Z'')
        [''content'' \<mapsto> JStr [0x0061, 0x200B, 0x0062, 0x0085, 0x0063, 0x180E, 0x0064, 0x1FFF, 0x0065]] = Inr data \<and>
      field data ''wordCount'' = JNum 1 \<and> field data ''readingTime'' = JNum 1) \<and>
   needs_backfill [''id'' \<mapsto> JNum 1, ''content'' \<mapsto> JStr (js ''a b'')] \<and>
   to_key (field [''id'' \<mapsto> JNum 1, ''content'' \<mapsto> JStr (js ''a b'')] ''id'') = Some (KNum 1) \<and>
   (\<exists>data. backfill_record (KNum 1, [''id'' \<mapsto> JNum 1, ''content'' \<mapsto> JStr (js ''a b'')])
        = Inr (KNum 1, data) \<and>
      field data ''wordCount'' = JNum 2 \<and> field data ''readingTime'' = JNum 1)"
proof -
  let ?now = "js ''2024-05-01T10:00:00.000Z''"
  let ?c1 = "js ''one two three''"
  let ?r1 = "[''title'' \<mapsto> JStr (js ''A''), ''url'' \<mapsto> JStr (js ''http://x''),
              ''content'' \<mapsto> JStr ?c1]"
  let ?c2 = "concat (replicate 449 (js ''w '')) @ js ''w''"
  let ?r2 = "[''content'' \<mapsto> JStr ?c2]"
  let ?c3 = "[0x0009, 0x000A, 0x000B, 0x000C, 0x000D, 0x0020, 0x00A0, 0x1680, 0x2000, 0x2001,
            0x2002, 0x2003, 0x2004, 0x2005, 0x2006, 0x2007, 0x2008, 0x2009, 0x200A, 0x2028,
            0x2029, 0x202F, 0x205F, 0x3000, 0xFEFF] :: jsstring"
  let ?r3 = "[''content'' \<mapsto> JStr ?c3]"
  let ?c4 = "js ''a b''"
  let ?r4 = "[''id'' \<mapsto> JNum 1, ''content'' \<mapsto> JStr ?c4]"
  let ?c5 = "[0x0061, 0x2003, 0x0062, 0x00A0, 0x3000, 0x0063, 0xFEFF, 0x0064, 0x1680, 0x0065] :: jsstring"
  let ?r5 = "[''content'' \<mapsto> JStr ?c5]"
  let ?c6 = "[0x0061, 0x200B, 0x0062, 0x0085, 0x0063, 0x180E, 0x0064, 0x1FFF, 0x0065] :: jsstring"
  let ?r6 = "[''content'' \<mapsto> JStr ?c6]"
  have t1: "spec_reading_time 3 = 1" and t2: "spec_reading_time 450 = 3"
    and t4: "spec_reading_time 2 = 1" and t5: "spec_reading_time 5 = 1"
    and t6: "spec_reading_time 1 = 1"
    by (simp_all add: spec_reading_time_def)
  have h1: "field ?r1 ''content'' = JStr ?c1" by (simp add: field_def)
  have n1: "length (spec_tokens ?c1) = 3"
    by (simp add: spec_tokens_def is_space_def js_def)
  from metadata_derivation [OF h1, of ?now] obtain d1 where
    "new_data ?now ?r1 = Inr d1"
    "field d1 ''wordCount'' = JNum (int (length (spec_tokens ?c1)))"
    "field d1 ''readingTime'' = JNum (spec_reading_time (length (spec_tokens ?c1)))"
    by blast
  then have a1: "\<exists>data. new_data ?now ?r1 = Inr data \<and>
      field data ''wordCount'' = JNum 3 \<and> field data ''readingTime'' = JNum 1"
    unfolding n1 t1 by simp
  have h2: "field ?r2 ''content'' = JStr ?c2" by (simp add: field_def)
  have "tokens_from [] (js ''w'') = [js ''w'']" by (simp add: is_space_def js_def)
  then have n2: "length (spec_tokens ?c2) = 450"
    unfolding spec_tokens_def spec_tokens_replicate by (simp only: length_append length_replicate) simp
  from metadata_derivation [OF h2, of ?now] obtain d2 where
    "new_data ?now ?r2 = Inr d2"
    "field d2 ''wordCount'' = JNum (int (length (spec_tokens ?c2)))"
    "field d2 ''readingTime'' = JNum (spec_reading_time (length (spec_tokens ?c2)))"
    by blast
  then have a2: "\<exists>data. new_data ?now ?r2 = Inr data \<and>
      field data ''wordCount'' = JNum 450 \<and> field data ''readingTime'' = JNum 3"
    unfolding n2 t2 by (simp only: of_nat_numeral) blast
  have h3: "field ?r3 ''content'' = JStr ?c3" by (simp add: field_def)
  have sp: "\<forall>ch \<in> set ?c3. is_space ch" by (simp add: is_space_def)
  from metadata_derivation [OF h3, of ?now] sp
  have a3: "\<exists>data. new_data ?now ?r3 = Inr data \<and>
      field data ''wordCount'' = JNum 0 \<and> field data ''readingTime'' = JNum 0"
    by blast
  have h5: "field ?r5 ''content'' = JStr ?c5" by (simp add: field_def)
  have n5: "length (spec_tokens ?c5) = 5"
    by (simp add: spec_tokens_def is_space_def)
  from metadata_derivation [OF h5, of ?now] obtain d5 where
    "new_data ?now ?r5 = Inr d5"
    "field d5 ''wordCount'' = JNum (int (length (spec_tokens ?c5)))"
    "field d5 ''readingTime'' = JNum (spec_reading_time (length (spec_tokens ?c5)))"
    by blast
  then have a5: "\<exists>data. new_data ?now ?r5 = Inr data \<and>
      field data ''wordCount'' = JNum 5 \<and> field data ''readingTime'' = JNum 1"
    unfolding n5 t5 by simp
  have h6: "field ?r6 ''content'' = JStr ?c6" by (simp add: field_def)
  have n6: "length (spec_tokens ?c6) = 1"
    by (simp add: spec_tokens_def is_space_def)
  from metadata_derivation [OF h6, of ?now] obtain d6 where
    "new_data ?now ?r6 = Inr d6"
    "field d6 ''wordCount'' = JNum (int (length (spec_tokens ?c6)))"
    "field d6 ''readingTime'' = JNum (spec_reading_time (length (spec_tokens ?c6)))"
    by blast
  then have a6: "\<exists>data. new_data ?now ?r6 = Inr data \<and>
      field data ''wordCount'' = JNum 1 \<and> field data ''readingTime'' = JNum 1"
    unfolding n6 t6 by simp
  have h4: "field ?r4 ''content'' = JStr ?c4" by (simp add: field_def)
  have nb: "needs_backfill ?r4" by (simp add: needs_backfill_def field_def)
  have key: "to_key (field ?r4 ''id'') = Some (KNum 1)" by (simp add: field_def)
  have n4: "length (spec_tokens ?c4) = 2"
    by (simp add: spec_tokens_def is_space_def js_def)
  from metadata_derivation [OF h4, of _ "KNum 1"] nb key obtain d4 where
    "backfill_record (KNum 1, ?r4) = Inr (KNum 1, d4)"
    "field d4 ''wordCount'' = JNum (int (length (spec_tokens ?c4)))"
    "field d4 ''readingTime'' = JNum (spec_reading_time (length (spec_tokens ?c4)))"
    by blast
  then have a4: "\<exists>data. backfill_record (KNum 1, ?r4) = Inr (KNum 1, data) \<and>
      field data ''wordCount'' = JNum 2 \<and> field data ''readingTime'' = JNum 1"
    unfolding n4 t4 by simp
  from h1 a1 h2 a2 h3 a3 h5 a5 h6 a6 nb key a4 show ?thesis by blast
qed

section \<open>The store invariant is kept\<close>

text \<open>
  \<open>store_ok\<close> holds of the empty store and is kept by every way the module changes a
  store: adding, deleting, clearing and the migration scan.
\<close>

lemma store_ok_empty: "store_ok \<lparr>records = [], keygen = 1\<rparr>"
  by (simp add: store_ok_def)

lemma store_ok_clear: "store_ok s \<Longrightarrow> store_ok (store_clear s)"
  by (simp add: store_ok_def store_clear_def)

lemma store_ok_delete: "store_ok s \<Longrightarrow> store_ok (store_delete k s)"
  by (auto simp: store_ok_def store_delete_def distinct_map_filter)

lemma key_val_inj: "(key_val a = key_val b) = (a = b)"
  by (cases a; cases b) auto

lemma map_fst_backfill_scan:
  "backfill_scan rs = Inr rs' \<Longrightarrow> map fst rs' = map fst rs"
proof (induction rs arbitrary: rs')
  case Nil
  then show ?case by simp
next
  case (Cons kd rs)
  obtain k data where kd: "kd = (k, data)" by (cases kd)
  from Cons.prems obtain kd' rest' where r: "backfill_record (k, data) = Inr kd'"
    and s: "backfill_scan rs = Inr rest'" and rs': "rs' = kd' # rest'"
    by (auto simp: kd split: sum.splits)
  from backfill_record_Inr [OF r] Cons.IH [OF s] show ?case by (simp add: rs' kd)
qed

lemma inline_backfill_scan:
  assumes "backfill_scan rs = Inr rs'"
    and "\<forall>kd \<in> set rs. to_key (field (snd kd) ''id'') = Some (fst kd)"
  shows "\<forall>kd \<in> set rs'. to_key (field (snd kd) ''id'') = Some (fst kd)"
  using assms
proof (induction rs arbitrary: rs')
  case Nil
  then show ?case by simp
next
  case (Cons kd rs)
  obtain k data where kd: "kd = (k, data)" by (cases kd)
  from Cons.prems(1) obtain kd' rest' where r: "backfill_record (k, data) = Inr kd'"
    and s: "backfill_scan rs = Inr rest'" and rs': "rs' = kd' # rest'"
    by (auto simp: kd split: sum.splits)
  from Cons.prems(2) have key: "to_key (field data ''id'') = Some k" by (simp add: kd)
  have "to_key (field (snd kd') ''id'') = Some (fst kd')"
    using backfill_record_Inr [OF r] key
    by (cases "needs_backfill data") (auto simp: field_id_upd)
  moreover from Cons.IH [OF s] Cons.prems(2)
  have "\<forall>kd \<in> set rest'. to_key (field (snd kd) ''id'') = Some (fst kd)" by simp
  ultimately show ?case by (simp add: rs')
qed

lemma store_ok_backfill:
  assumes "store_ok s" and "backfill_scan (records s) = Inr rs'"
  shows "store_ok (s\<lparr>records := rs'\<rparr>)"
proof -
  have keys: "map fst rs' = map fst (records s)" by (rule map_fst_backfill_scan [OF assms(2)])
  have inl: "\<forall>kd \<in> set rs'. to_key (field (snd kd) ''id'') = Some (fst kd)"
  proof (rule inline_backfill_scan [OF assms(2)])
    show "\<forall>kd \<in> set (records s). to_key (field (snd kd) ''id'') = Some (fst kd)"
      using assms(1) unfolding store_ok_def by blast
  qed
  from assms(1) have d: "distinct (map fst (records s))"
    and g: "keygen s \<le> 2 ^ 53 \<longrightarrow> (\<forall>k \<in> set (map fst (records s)). key_below (keygen s) k)"
    unfolding store_ok_def by blast+
  have r: "records (s\<lparr>records := rs'\<rparr>) = rs'" "keygen (s\<lparr>records := rs'\<rparr>) = keygen s"
    by simp_all
  show ?thesis
    unfolding store_ok_def r keys using d g inl by blast
qed

lemma store_ok_add:
  assumes ok: "store_ok s" and add: "store_add v s = Inr (k, s')"
  shows "store_ok s'"
proof -
  from store_add_Inr [OF add] obtain v' where
    fresh: "k \<notin> set (map fst (records s))"
    and recs: "records s' = insert_record k v' (records s)"
    and vid: "field v' ''id'' = key_val k" by auto
  have d: "distinct (map fst (records s'))"
    unfolding recs using ok fresh by (intro distinct_insert_record) (simp_all add: store_ok_def)
  have i: "\<forall>kd \<in> set (records s'). to_key (field (snd kd) ''id'') = Some (fst kd)"
    unfolding recs using ok vid by (simp add: set_insert_record store_ok_def)
  have g: "keygen s' \<le> 2 ^ 53 \<longrightarrow> (\<forall>k' \<in> set (map fst (records s')). key_below (keygen s') k')"
  proof
    assume le: "keygen s' \<le> 2 ^ 53"
    have facts: "keygen s \<le> keygen s' \<and> key_below (keygen s') k"
    proof (cases "v ''id''")
      case None
      with add show ?thesis
        by (auto simp: store_add_def put_new_def split: if_splits)
    next
      case (Some x)
      show ?thesis
      proof (cases x)
        case (JNum n)
        with Some add have "k = KNum n"
          and "keygen s' = (if min n (2 ^ 53) \<ge> keygen s then min n (2 ^ 53) + 1 else keygen s)"
          by (auto simp: store_add_def put_new_def split: if_splits)
        with le show ?thesis by (auto split: if_splits)
      next
        case (JStr t)
        with Some add show ?thesis
          by (auto simp: store_add_def put_new_def split: if_splits)
      qed (use add Some in \<open>simp_all add: store_add_def\<close>)
    qed
    then have "keygen s \<le> 2 ^ 53" using le by simp
    with ok have old: "\<forall>k' \<in> set (map fst (records s)). key_below (keygen s) k'"
      by (simp add: store_ok_def)
    have mono: "key_below (keygen s') k'" if "key_below (keygen s) k'" for k'
      using that facts by (cases k') auto
    from old mono facts show "\<forall>k' \<in> set (map fst (records s')). key_below (keygen s') k'"
      unfolding recs by (auto simp: set_insert_record)
  qed
  from d i g show ?thesis by (simp add: store_ok_def)
qed

section \<open>Deleting a page\<close>

text \<open>
  With the store present, \<open>deleteClippedPage\<close> with a valid key succeeds; afterwards
  \<open>getAllClippedPages\<close> returns the records it returned before without those carrying the
  id, and when no record carries the id the store is exactly as it was.
\<close>

lemma delete_by_id:
  assumes "store_ok s"
  shows "map snd (filter (\<lambda>(k', v). k' \<noteq> k) (records s)) =
         filter (\<lambda>p. field p ''id'' \<noteq> key_val k) (map snd (records s))"
proof -
  have "\<forall>kd \<in> set (records s). (fst kd \<noteq> k) = (field (snd kd) ''id'' \<noteq> key_val k)"
  proof
    fix kd assume "kd \<in> set (records s)"
    with assms have "to_key (field (snd kd) ''id'') = Some (fst kd)"
      by (simp add: store_ok_def)
    then have "field (snd kd) ''id'' = key_val (fst kd)" by (rule to_key_Some)
    then show "(fst kd \<noteq> k) = (field (snd kd) ''id'' \<noteq> key_val k)"
      by (simp add: key_val_inj)
  qed
  then have "filter (\<lambda>(k', v). k' \<noteq> k) (records s) =
      filter (\<lambda>kd. field (snd kd) ''id'' \<noteq> key_val k) (records s)"
    by (intro filter_cong) (auto simp: case_prod_beta)
  then show ?thesis by (simp add: filter_map comp_def)
qed

lemma deletePage_store_present:
  assumes ok: "store_ok s" and key: "to_key idv = Some k"
  shows "deleteClippedPage idv (Opened (Some s)) = (Inr (), Opened (Some (store_delete k s))) \<and>
         getAllClippedPages (Opened (Some (store_delete k s))) =
           Inr (filter (\<lambda>p. field p ''id'' \<noteq> idv) (store_getAll s)) \<and>
         (k \<notin> set (map fst (records s)) \<longrightarrow> store_delete k s = s)"
proof -
  have idv: "idv = key_val k" by (rule to_key_Some [OF key])
  have "filter (\<lambda>(k', v). k' \<noteq> k) (records s) = records s" if "k \<notin> set (map fst (records s))"
    using that by (intro filter_True) force
  then have noop: "k \<notin> set (map fst (records s)) \<longrightarrow> store_delete k s = s"
    by (simp add: store_delete_def)
  show ?thesis
    using noop
    by (simp add: deleteClippedPage_def key getAllClippedPages_def store_getAll_def
        store_delete_def delete_by_id [OF ok] idv)
qed

section \<open>The upgrade\<close>

text \<open>
  C8. When \<open>initDB\<close> upgrades a database of an older version that has the store, the store
  keeps its records' keys, their order and its key generator. A record whose \<^verbatim>\<open>wordCount\<close>
  or \<^verbatim>\<open>readingTime\<close> is missing or falsy gets both from its content (from the empty string
  when the content is absent or falsy) and keeps every other field, \<^verbatim>\<open>id\<close> included; a
  record in which both are truthy is left as it is. The upgrade succeeds whenever every
  record carries its key in \<^verbatim>\<open>id\<close> and has a content that is a string or falsy.
\<close>

theorem upgrade_backfills:
  assumes old: "version d < DB_VERSION" and st: "store d = Some s"
  shows "((\<forall>kd \<in> set (records s). to_key (field (snd kd) ''id'') = Some (fst kd) \<and>
         (\<not> truthy (field (snd kd) ''content'') \<or> (\<exists>t. field (snd kd) ''content'' = JStr t))) \<longrightarrow> (\<exists>w'. initDB (Closed d) = (Inr (), w'))) \<and>
   (\<forall>w'. initDB (Closed d) = (Inr (), w') \<longrightarrow>
      (\<exists>s'. w' = Opened (Some s') \<and> keygen s' = keygen s \<and>
         length (records s') = length (records s) \<and>
         (\<forall>i < length (records s).
            fst (records s' ! i) = fst (records s ! i) \<and>
            ((\<not> truthy (field (snd (records s ! i)) ''wordCount'') \<or>
              \<not> truthy (field (snd (records s ! i)) ''readingTime'')) \<longrightarrow>
               (\<exists>t. (if truthy (field (snd (records s ! i)) ''content'')
                      then field (snd (records s ! i)) ''content'' = JStr t else t = []) \<and>
                  snd (records s' ! i) ''wordCount'' = Some (JNum (int (length (spec_tokens t)))) \<and>
                  snd (records s' ! i) ''readingTime'' =
                    Some (JNum (spec_reading_time (length (spec_tokens t)))) \<and>
                  (\<forall>f. f \<noteq> ''wordCount'' \<and> f \<noteq> ''readingTime'' \<longrightarrow>
                     snd (records s' ! i) f = snd (records s ! i) f))) \<and>
            (truthy (field (snd (records s ! i)) ''wordCount'') \<and>
             truthy (field (snd (records s ! i)) ''readingTime'') \<longrightarrow>
               snd (records s' ! i) = snd (records s ! i)))))"
proof (intro conjI impI allI)
  assume wf: "(\<forall>kd \<in> set (records s). to_key (field (snd kd) ''id'') = Some (fst kd) \<and>
         (\<not> truthy (field (snd kd) ''content'') \<or> (\<exists>t. field (snd kd) ''content'' = JStr t)))"
  from backfill_scan_succeeds [OF wf] obtain rs' where "backfill_scan (records s) = Inr rs'"
    by blast
  with old st show "\<exists>w'. initDB (Closed d) = (Inr (), w')"
    by (simp add: initDB_def onupgradeneeded_def)
next
  fix w'
  assume init: "initDB (Closed d) = (Inr (), w')"
  from initDB_upgrade_Inr [OF old st init] obtain rs' where
    scan: "backfill_scan (records s) = Inr rs'"
    and w': "w' = Opened (Some (s\<lparr>records := rs'\<rparr>))" by auto
  have all2: "list_all2 (\<lambda>kd kd'. backfill_record kd = Inr kd') (records s) rs'"
    by (rule backfill_scan_Inr [OF scan])
  then have len: "length rs' = length (records s)"
    by (simp add: list_all2_lengthD)
  have each: "fst (rs' ! i) = fst (records s ! i) \<and>
      ((\<not> truthy (field (snd (records s ! i)) ''wordCount'') \<or>
        \<not> truthy (field (snd (records s ! i)) ''readingTime'')) \<longrightarrow>
         (\<exists>t. (if truthy (field (snd (records s ! i)) ''content'')
                then field (snd (records s ! i)) ''content'' = JStr t else t = []) \<and>
            snd (rs' ! i) ''wordCount'' = Some (JNum (int (length (spec_tokens t)))) \<and>
            snd (rs' ! i) ''readingTime'' =
              Some (JNum (spec_reading_time (length (spec_tokens t)))) \<and>
            (\<forall>f. f \<noteq> ''wordCount'' \<and> f \<noteq> ''readingTime'' \<longrightarrow>
               snd (rs' ! i) f = snd (records s ! i) f))) \<and>
      (truthy (field (snd (records s ! i)) ''wordCount'') \<and>
       truthy (field (snd (records s ! i)) ''readingTime'') \<longrightarrow>
         snd (rs' ! i) = snd (records s ! i))"
    if i: "i < length (records s)" for i
  proof -
    obtain k data where kd: "records s ! i = (k, data)" by (cases "records s ! i")
    from list_all2_nthD [OF all2 i] have rec: "backfill_record (k, data) = Inr (rs' ! i)"
      by (simp add: kd)
    note r = backfill_record_Inr [OF rec]
    show ?thesis
    proof (cases "needs_backfill data")
      case False
      then have "truthy (field data ''wordCount'') \<and> truthy (field data ''readingTime'')"
        by (simp add: needs_backfill_def)
      with r False show ?thesis by (simp add: kd)
    next
      case True
      then have nb: "\<not> truthy (field data ''wordCount'') \<or> \<not> truthy (field data ''readingTime'')"
        by (simp add: needs_backfill_def)
      from r True obtain words where cw: "content_words data = Inr words"
        and d': "snd (rs' ! i) = data(''wordCount'' \<mapsto> JNum (int (length words)),
                       ''readingTime'' \<mapsto> JNum (reading_time (length words)))"
        by auto
      from cw obtain t where tx: "js_or (field data ''content'') (JStr []) = JStr t"
        and ws: "words = spec_tokens t"
        by (auto simp: content_words_def words_of_spec_tokens split: jsval.splits)
      from tx have src: "if truthy (field data ''content'')
          then field data ''content'' = JStr t else t = []"
        by (simp add: js_or_def split: if_splits)
      have rt: "reading_time (length (spec_tokens t)) = spec_reading_time (length (spec_tokens t))"
        by (simp only: reading_time_div spec_reading_time_def)
      have flds: "snd (rs' ! i) ''wordCount'' = Some (JNum (int (length (spec_tokens t))))"
        "snd (rs' ! i) ''readingTime'' = Some (JNum (spec_reading_time (length (spec_tokens t))))"
        "\<forall>f. f \<noteq> ''wordCount'' \<and> f \<noteq> ''readingTime'' \<longrightarrow> snd (rs' ! i) f = data f"
        by (simp_all add: d' rt ws)
      from r have key: "fst (rs' ! i) = k" by simp
      from nb src flds key show ?thesis
        unfolding kd fst_conv snd_conv by blast
    qed
  qed
  show "\<exists>s'. w' = Opened (Some s') \<and> keygen s' = keygen s \<and>
         length (records s') = length (records s) \<and>
         (\<forall>i < length (records s).
            fst (records s' ! i) = fst (records s ! i) \<and>
            ((\<not> truthy (field (snd (records s ! i)) ''wordCount'') \<or>
              \<not> truthy (field (snd (records s ! i)) ''readingTime'')) \<longrightarrow>
               (\<exists>t. (if truthy (field (snd (records s ! i)) ''content'')
                      then field (snd (records s ! i)) ''content'' = JStr t else t = []) \<and>
                  snd (records s' ! i) ''wordCount'' = Some (JNum (int (length (spec_tokens t)))) \<and>
                  snd (records s' ! i) ''readingTime'' =
                    Some (JNum (spec_reading_time (length (spec_tokens t)))) \<and>
                  (\<forall>f. f \<noteq> ''wordCount'' \<and> f \<noteq> ''readingTime'' \<longrightarrow>
                     snd (records s' ! i) f = snd (records s ! i) f))) \<and>
            (truthy (field (snd (records s ! i)) ''wordCount'') \<and>
             truthy (field (snd (records s ! i)) ''readingTime'') \<longrightarrow>
               snd (records s' ! i) = snd (records s ! i)))"
    by (intro exI [of _ "s\<lparr>records := rs'\<rparr>"]) (simp add: w' len each)
qed

text \<open>
  The scenario of the spec and its neighbours: record 1 lacks both fields, record 2 has both
  (and stale ones: its content has two words), record 3 has neither the fields nor a
  content, record 4 lacks only \<^verbatim>\<open>readingTime\<close> and record 5 only \<^verbatim>\<open>wordCount\<close>.
\<close>

theorem upgrade_backfills_witness:
  "version \<lparr>version = 1, store = Some \<lparr>records =
      [(KNum 1, [''id'' \<mapsto> JNum 1, ''title'' \<mapsto> JStr (js ''A''), ''content'' \<mapsto> JStr (js ''a b'')]),
       (KNum 2, [''id'' \<mapsto> JNum 2, ''title'' \<mapsto> JStr (js ''B''), ''content'' \<mapsto> JStr (js ''stale text''),
                 ''wordCount'' \<mapsto> JNum 5, ''readingTime'' \<mapsto> JNum 1]),
       (KNum 3, [''id'' \<mapsto> JNum 3, ''title'' \<mapsto> JStr (js ''C'')]),
       (KNum 4, [''id'' \<mapsto> JNum 4, ''title'' \<mapsto> JStr (js ''D''), ''content'' \<mapsto> JStr (js ''p q r''),
                 ''wordCount'' \<mapsto> JNum 7]),
       (KNum 5, [''id'' \<mapsto> JNum 5, ''title'' \<mapsto> JStr (js ''E''), ''content'' \<mapsto> JStr (js ''x''),
                 ''readingTime'' \<mapsto> JNum 9])],
      keygen = 6\<rparr>\<rparr> < DB_VERSION \<and>
   store \<lparr>version = 1, store = Some \<lparr>records =
      [(KNum 1, [''id'' \<mapsto> JNum 1, ''title'' \<mapsto> JStr (js ''A''), ''content'' \<mapsto> JStr (js ''a b'')]),
       (KNum 2, [''id'' \<mapsto> JNum 2, ''title'' \<mapsto> JStr (js ''B''), ''content'' \<mapsto> JStr (js ''stale text''),
                 ''wordCount'' \<mapsto> JNum 5, ''readingTime'' \<mapsto> JNum 1]),
       (KNum 3, [''id'' \<mapsto> JNum 3, ''title'' \<mapsto> JStr (js ''C'')]),
       (KNum 4, [''id'' \<mapsto> JNum 4, ''title'' \<mapsto> JStr (js ''D''), ''content'' \<mapsto> JStr (js ''p q r''),
                 ''wordCount'' \<mapsto> JNum 7]),
       (KNum 5, [''id'' \<mapsto> JNum 5, ''title'' \<mapsto> JStr (js ''E''), ''content'' \<mapsto> JStr (js ''x''),
                 ''readingTime'' \<mapsto> JNum 9])],
      keygen = 6\<rparr>\<rparr> = Some \<lparr>records =
      [(KNum 1, [''id'' \<mapsto> JNum 1, ''title'' \<mapsto> JStr (js ''A''), ''content'' \<mapsto> JStr (js ''a b'')]),
       (KNum 2, [''id'' \<mapsto> JNum 2, ''title'' \<mapsto> JStr (js ''B''), ''content'' \<mapsto> JStr (js ''stale text''),
                 ''wordCount'' \<mapsto> JNum 5, ''readingTime'' \<mapsto> JNum 1]),
       (KNum 3, [''id'' \<mapsto> JNum 3, ''title'' \<mapsto> JStr (js ''C'')]),
       (KNum 4, [''id'' \<mapsto> JNum 4, ''title'' \<mapsto> JStr (js ''D''), ''content'' \<mapsto> JStr (js ''p q r''),
                 ''wordCount'' \<mapsto> JNum 7]),
       (KNum 5, [''id'' \<mapsto> JNum 5, ''title'' \<mapsto> JStr (js ''E''), ''content'' \<mapsto> JStr (js ''x''),
                 ''readingTime'' \<mapsto> JNum 9])],
      keygen = 6\<rparr> \<and>
   (\<exists>w'. initDB (Closed \<lparr>version = 1, store = Some \<lparr>records =
      [(KNum 1, [''id'' \<mapsto> JNum 1, ''title'' \<mapsto> JStr (js ''A''), ''content'' \<mapsto> JStr (js ''a b'')]),
       (KNum 2, [''id'' \<mapsto> JNum 2, ''title'' \<mapsto> JStr (js ''B''), ''content'' \<mapsto> JStr (js ''stale text''),
                 ''wordCount'' \<mapsto> JNum 5, ''readingTime'' \<mapsto> JNum 1]),
       (KNum 3, [''id'' \<mapsto> JNum 3, ''title'' \<mapsto> JStr (js ''C'')]),
       (KNum 4, [''id'' \<mapsto> JNum 4, ''title'' \<mapsto> JStr (js ''D''), ''content'' \<mapsto> JStr (js ''p q r''),
                 ''wordCount'' \<mapsto> JNum 7]),
       (KNum 5, [''id'' \<mapsto> JNum 5, ''title'' \<mapsto> JStr (js ''E''), ''content'' \<mapsto> JStr (js ''x''),
                 ''readingTime'' \<mapsto> JNum 9])],
      keygen = 6\<rparr>\<rparr>) = (Inr (), w')) \<and>
   initDB (Closed \<lparr>version = 1, store = Some \<lparr>records =
      [(KNum 1, [''id'' \<mapsto> JNum 1, ''title'' \<mapsto> JStr (js ''A''), ''content'' \<mapsto> JStr (js ''a b'')]),
       (KNum 2, [''id'' \<mapsto> JNum 2, ''title'' \<mapsto> JStr (js ''B''), ''content'' \<mapsto> JStr (js ''stale text''),
                 ''wordCount'' \<mapsto> JNum 5, ''readingTime'' \<mapsto> JNum 1]),
       (KNum 3, [''id'' \<mapsto> JNum 3, ''title'' \<mapsto> JStr (js ''C'')]),
       (KNum 4, [''id'' \<mapsto> JNum 4, ''title'' \<mapsto> JStr (js ''D''), ''content'' \<mapsto> JStr (js ''p q r''),
                 ''wordCount'' \<mapsto> JNum 7]),
       (KNum 5, [''id'' \<mapsto> JNum 5, ''title'' \<mapsto> JStr (js ''E''), ''content'' \<mapsto> JStr (js ''x''),
                 ''readingTime'' \<mapsto> JNum 9])],
      keygen = 6\<rparr>\<rparr>)
   = (Inr (), Opened (Some \<lparr>records =
      [(KNum 1, [''id'' \<mapsto> JNum 1, ''title'' \<mapsto> JStr (js ''A''), ''content'' \<mapsto> JStr (js ''a b''),
                 ''wordCount'' \<mapsto> JNum 2, ''readingTime'' \<mapsto> JNum 1]),
       (KNum 2, [''id'' \<mapsto> JNum 2, ''title'' \<mapsto> JStr (js ''B''), ''content'' \<mapsto> JStr (js ''stale text''),
                 ''wordCount'' \<mapsto> JNum 5, ''readingTime'' \<mapsto> JNum 1]),
       (KNum 3, [''id'' \<mapsto> JNum 3, ''title'' \<mapsto> JStr (js ''C''),
                 ''wordCount'' \<mapsto> JNum 0, ''readingTime'' \<mapsto> JNum 0]),
       (KNum 4, [''id'' \<mapsto> JNum 4, ''title'' \<mapsto> JStr (js ''D''), ''content'' \<mapsto> JStr (js ''p q r''),
                 ''wordCount'' \<mapsto> JNum 3, ''readingTime'' \<mapsto> JNum 1]),
       (KNum 5, [''id'' \<mapsto> JNum 5, ''title'' \<mapsto> JStr (js ''E''), ''content'' \<mapsto> JStr (js ''x''),
                 ''readingTime'' \<mapsto> JNum 9, ''wordCount'' \<mapsto> JNum 1, ''readingTime'' \<mapsto> JNum 1])],
      keygen = 6\<rparr>)) \<and>
   (\<exists>s'. Opened (Some \<lparr>records =
      [(KNum 1, [''id'' \<mapsto> JNum 1, ''title'' \<mapsto> JStr (js ''A''), ''content'' \<mapsto> JStr (js ''a b''),
                 ''wordCount'' \<mapsto> JNum 2, ''readingTime'' \<mapsto> JNum 1]),
       (KNum 2, [''id'' \<mapsto> JNum 2, ''title'' \<mapsto> JStr (js ''B''), ''content'' \<mapsto> JStr (js ''stale text''),
                 ''wordCount'' \<mapsto> JNum 5, ''readingTime'' \<mapsto> JNum 1]),
       (KNum 3, [''id'' \<mapsto> JNum 3, ''title'' \<mapsto> JStr (js ''C''),
                 ''wordCount'' \<mapsto> JNum 0, ''readingTime'' \<mapsto> JNum 0]),
       (KNum 4, [''id'' \<mapsto> JNum 4, ''title'' \<mapsto> JStr (js ''D''), ''content'' \<mapsto> JStr (js ''p q r''),
                 ''wordCount'' \<mapsto> JNum 3, ''readingTime'' \<mapsto> JNum 1]),
       (KNum 5, [''id'' \<mapsto> JNum 5, ''title'' \<mapsto> JStr (js ''E''), ''content'' \<mapsto> JStr (js ''x''),
                 ''readingTime'' \<mapsto> JNum 9, ''wordCount'' \<mapsto> JNum 1, ''readingTime'' \<mapsto> JNum 1])],
      keygen = 6\<rparr>) = Opened (Some s') \<and> keygen s' = 6 \<and> length (records s') = 5)"
proof -
  let ?s = "\<lparr>records =
      [(KNum 1, [''id'' \<mapsto> JNum 1, ''title'' \<mapsto> JStr (js ''A''), ''content'' \<mapsto> JStr (js ''a b'')]),
       (KNum 2, [''id'' \<mapsto> JNum 2, ''title'' \<mapsto> JStr (js ''B''), ''content'' \<mapsto> JStr (js ''stale text''),
                 ''wordCount'' \<mapsto> JNum 5, ''readingTime'' \<mapsto> JNum 1]),
       (KNum 3, [''id'' \<mapsto> JNum 3, ''title'' \<mapsto> JStr (js ''C'')]),
       (KNum 4, [''id'' \<mapsto> JNum 4, ''title'' \<mapsto> JStr (js ''D''), ''content'' \<mapsto> JStr (js ''p q r''),
                 ''wordCount'' \<mapsto> JNum 7]),
       (KNum 5, [''id'' \<mapsto> JNum 5, ''title'' \<mapsto> JStr (js ''E''), ''content'' \<mapsto> JStr (js ''x''),
                 ''readingTime'' \<mapsto> JNum 9])],
      keygen = 6\<rparr>"
  let ?d = "\<lparr>version = 1, store = Some ?s\<rparr>"
  let ?w' = "Opened (Some \<lparr>records =
      [(KNum 1, [''id'' \<mapsto> JNum 1, ''title'' \<mapsto> JStr (js ''A''), ''content'' \<mapsto> JStr (js ''a b''),
                 ''wordCount'' \<mapsto> JNum 2, ''readingTime'' \<mapsto> JNum 1]),
       (KNum 2, [''id'' \<mapsto> JNum 2, ''title'' \<mapsto> JStr (js ''B''), ''content'' \<mapsto> JStr (js ''stale text''),
                 ''wordCount'' \<mapsto> JNum 5, ''readingTime'' \<mapsto> JNum 1]),
       (KNum 3, [''id'' \<mapsto> JNum 3, ''title'' \<mapsto> JStr (js ''C''),
                 ''wordCount'' \<mapsto> JNum 0, ''readingTime'' \<mapsto> JNum 0]),
       (KNum 4, [''id'' \<mapsto> JNum 4, ''title'' \<mapsto> JStr (js ''D''), ''content'' \<mapsto> JStr (js ''p q r''),
                 ''wordCount'' \<mapsto> JNum 3, ''readingTime'' \<mapsto> JNum 1]),
       (KNum 5, [''id'' \<mapsto> JNum 5, ''title'' \<mapsto> JStr (js ''E''), ''content'' \<mapsto> JStr (js ''x''),
                 ''readingTime'' \<mapsto> JNum 9, ''wordCount'' \<mapsto> JNum 1, ''readingTime'' \<mapsto> JNum 1])],
      keygen = 6\<rparr>)"
  have h1: "version ?d < DB_VERSION"
    by (simp add: DB_VERSION_def)
  have h2: "store ?d = Some ?s" by simp
  have wf: "\<forall>kd \<in> set (records ?s). to_key (field (snd kd) ''id'') = Some (fst kd) \<and>
         (\<not> truthy (field (snd kd) ''content'') \<or> (\<exists>t. field (snd kd) ''content'' = JStr t))"
    by (simp add: field_def)
  from upgrade_backfills [OF h1 h2] wf
  have ex: "\<exists>w'. initDB (Closed ?d) = (Inr (), w')" by blast
  have h3: "initDB (Closed ?d) = (Inr (), ?w')"
    by (simp add: initDB_def DB_VERSION_def onupgradeneeded_def backfill_record_def
        needs_backfill_def content_words_def js_or_def field_def words_of_def trim_def
        is_space_def js_def split_ws.simps reading_time_div cursor_update_def)
  from upgrade_backfills [OF h1 h2] h3 obtain s' where
    "?w' = Opened (Some s')" "keygen s' = keygen ?s" "length (records s') = length (records ?s)"
    by blast
  then have "\<exists>s'. ?w' = Opened (Some s') \<and> keygen s' = 6 \<and> length (records s') = 5"
    by simp
  with h1 h2 ex h3 show ?thesis by blast
qed

end
